theory Spec2Isabelle
  imports Main "HOL-Library.Sublist" "HOL-Library.AList"
begin

section \<open>Manifest documents\<close>

text \<open>
  The resolver works on the untyped trees the YAML-or-JSON decoder produces: Go's
  \<^verbatim>\<open>interface{}\<close> holding nil, a bool, a number, a string, a \<^verbatim>\<open>[]interface{}\<close> or a
  \<^verbatim>\<open>map[string]interface{}\<close>. A Go map has one entry per key and is ranged over in an
  order the runtime picks; a mapping is an association list whose keys are distinct and
  whose order is the order in which this run ranges over it. An assignment to a key
  that is present replaces the entry where it stands.
\<close>

datatype yaml =
    YNull
  | YBool bool
  | YNum int
  | YStr string
  | YSeq "yaml list"
  | YMap "(string \<times> yaml) list"

type_synonym obj = "(string \<times> yaml) list"

type_synonym imagemap = "string \<rightharpoonup> string"

text \<open>
  Go errors are values; a failed type assertion is a panic, which no function of the
  resolver recovers from. A function that mutates its argument and returns an error is a
  function to the mutated argument together with the error (the mutation made before
  the error stays in the tree the caller holds).
\<close>

datatype error =
    UnresolvedImage string      \<comment> \<open>\<^verbatim>\<open>"Unresolved image found: %s"\<close>, from updateContainers\<close>
  | UnresolvedSingleImage string \<comment> \<open>\<^verbatim>\<open>"unresolved image found: %s"\<close>, from updateContainer\<close>
  | MissingName obj             \<comment> \<open>\<^verbatim>\<open>"Missing metadata.name in object %v"\<close>\<close>
  | MissingKind obj             \<comment> \<open>\<^verbatim>\<open>"Missing kind in object %v"\<close>\<close>
  | MarshalFailed obj           \<comment> \<open>\<^verbatim>\<open>"Unable to marshal object %v"\<close>\<close>
  | EOF                         \<comment> \<open>\<^verbatim>\<open>io.EOF\<close>\<close>
  | DecodeError string          \<comment> \<open>any other error of the decoder, with its message\<close>
  | WriteError string           \<comment> \<open>an error of the output writer\<close>

datatype 'a outcome =
    Panicked
  | Returned "error option" 'a

section \<open>String helpers\<close>

text \<open>\<^verbatim>\<open>strings.HasPrefix\<close> is \<^const>\<open>prefix\<close>; \<^verbatim>\<open>strings.Contains(s, substr)\<close>:\<close>

fun contains :: "string \<Rightarrow> string \<Rightarrow> bool" where
  "contains [] substr = (substr = [])"
| "contains (c # cs) substr = (prefix substr (c # cs) \<or> contains cs substr)"

text \<open>Indexing a Go map with a key it does not hold gives the zero value.\<close>

definition imagesAt :: "imagemap \<Rightarrow> string \<Rightarrow> string" where
  "imagesAt images k = (case images k of Some v \<Rightarrow> v | None \<Rightarrow> [])"

section \<open>The image tag transformer\<close>

definition resolveImageName :: "imagemap \<Rightarrow> string \<Rightarrow> string option" where
  "resolveImageName images imagename =
     (case images imagename of
        Some newname \<Rightarrow> Some newname
      | None \<Rightarrow>
          (case (if prefix '':'' imagename then images (drop 1 imagename) else None) of
             Some newname \<Rightarrow> Some newname
           | None \<Rightarrow>
               (if prefix ''@'' imagename then images (drop 1 imagename) else None)))"

text \<open>
  The loop of updateContainerEnv over the env entries. Each \<^verbatim>\<open>return\<close> of the source
  leaves the rest of the list as it is.
\<close>

fun envLoop :: "imagemap \<Rightarrow> yaml list \<Rightarrow> yaml list" where
  "envLoop images [] = []"
| "envLoop images (kvInterface # rest) =
     (case kvInterface of
        YMap kv \<Rightarrow>
          (case map_of kv ''name'' of
             Some (YStr envName) \<Rightarrow>
               (if contains envName ''IMAGE_URL'' then
                  (case map_of kv ''value'' of
                     Some (YStr envValue) \<Rightarrow>
                       (let kv1 = (if prefix ''//'' envValue
                                   then AList.update ''value'' (YStr (imagesAt images envValue)) kv
                                   else kv);
                            kv2 = (if prefix '':'' envValue
                                   then AList.update ''value''
                                          (YStr (imagesAt images (drop 1 envValue))) kv1
                                   else kv1)
                        in YMap kv2 # envLoop images rest)
                   | _ \<Rightarrow> kvInterface # rest)
                else kvInterface # envLoop images rest)
           | _ \<Rightarrow> kvInterface # rest)
      | _ \<Rightarrow> kvInterface # rest)"

definition updateContainerEnv :: "imagemap \<Rightarrow> obj \<Rightarrow> obj" where
  "updateContainerEnv images container =
     (case map_of container ''env'' of
        Some (YSeq env) \<Rightarrow> AList.update ''env'' (YSeq (envLoop images env)) container
      | _ \<Rightarrow> container)"

text \<open>
  \<open>consOutcome\<close> puts an element that has been dealt with in front of what the rest of
  a loop gives. containersLoop is the loop of updateContainers over the elements; the
  element that raises the error and the elements after it stay as they are.
\<close>

definition consOutcome :: "'a \<Rightarrow> 'a list outcome \<Rightarrow> 'a list outcome" where
  "consOutcome x r = (case r of Panicked \<Rightarrow> Panicked | Returned e xs \<Rightarrow> Returned e (x # xs))"

fun containersLoop :: "imagemap \<Rightarrow> yaml list \<Rightarrow> yaml list outcome" where
  "containersLoop images [] = Returned None []"
| "containersLoop images (c # rest) =
     (case c of
        YMap container0 \<Rightarrow>
          (let container = updateContainerEnv images container0 in
           case map_of container ''image'' of
             None \<Rightarrow> consOutcome (YMap container) (containersLoop images rest)
           | Some (YStr imagename) \<Rightarrow>
               (case resolveImageName images imagename of
                  Some newname \<Rightarrow>
                    consOutcome (YMap (AList.update ''image'' (YStr newname) container))
                      (containersLoop images rest)
                | None \<Rightarrow>
                    (if prefix ''//'' imagename
                     then Returned (Some (UnresolvedImage imagename)) (YMap container # rest)
                     else consOutcome (YMap container) (containersLoop images rest)))
           | Some _ \<Rightarrow> consOutcome (YMap container) (containersLoop images rest))
      | _ \<Rightarrow> Panicked)"

definition updateContainers :: "imagemap \<Rightarrow> obj \<Rightarrow> string \<Rightarrow> obj outcome" where
  "updateContainers images obj path =
     (case map_of obj path of
        Some (YSeq containers) \<Rightarrow>
          (case containersLoop images containers of
             Panicked \<Rightarrow> Panicked
           | Returned e containers' \<Rightarrow> Returned e (AList.update path (YSeq containers') obj))
      | _ \<Rightarrow> Panicked)"

definition updateContainer :: "imagemap \<Rightarrow> obj \<Rightarrow> string \<Rightarrow> obj outcome" where
  "updateContainer images obj path =
     (case map_of obj path of
        Some (YMap container0) \<Rightarrow>
          (let container = updateContainerEnv images container0 in
           case map_of container ''image'' of
             Some (YStr imagename) \<Rightarrow>
               (if prefix ''//'' imagename
                then Returned (Some (UnresolvedSingleImage imagename))
                       (AList.update path (YMap container) obj)
                else
                  (case resolveImageName images imagename of
                     Some newname \<Rightarrow>
                       Returned None
                         (AList.update path
                            (YMap (AList.update ''image'' (YStr newname) container)) obj)
                   | None \<Rightarrow> Returned None (AList.update path (YMap container) obj)))
           | _ \<Rightarrow> Returned None (AList.update path (YMap container) obj))
      | _ \<Rightarrow> Panicked)"

text \<open>
  The two loops over paths at the head of findAndReplaceTag. Both assign the variable
  \<^verbatim>\<open>found\<close> at every path, so it is threaded through them; a handler's error returns at
  once.
\<close>

fun pathsLoop ::
  "(obj \<Rightarrow> string \<Rightarrow> obj outcome) \<Rightarrow> string list \<Rightarrow> bool \<Rightarrow> obj \<Rightarrow> (bool \<times> obj) outcome" where
  "pathsLoop handler [] found obj = Returned None (found, obj)"
| "pathsLoop handler (path # paths) found obj =
     (if map_of obj path \<noteq> None then
        (case handler obj path of
           Panicked \<Rightarrow> Panicked
         | Returned (Some err) obj' \<Rightarrow> Returned (Some err) (True, obj')
         | Returned None obj' \<Rightarrow> pathsLoop handler paths True obj')
      else pathsLoop handler paths False obj)"

definition updateShapes :: "imagemap \<Rightarrow> obj \<Rightarrow> (bool \<times> obj) outcome" where
  "updateShapes images obj =
     (case pathsLoop (updateContainer images) [''container'', ''spec''] False obj of
        Panicked \<Rightarrow> Panicked
      | Returned (Some err) r \<Rightarrow> Returned (Some err) r
      | Returned None (found, obj') \<Rightarrow>
          pathsLoop (updateContainers images) [''containers'', ''initContainers''] found obj')"

section \<open>The recursive search\<close>

text \<open>
  findAndReplaceTag and findContainers call each other. The handlers change strings
  only, so the number of nodes of the tree stays the same under them; this is what
  the recursion descends on.
\<close>

lemma size_update_same:
  "map_of m k = Some v \<Longrightarrow> size v' = size v \<Longrightarrow> size (YMap (AList.update k v' m)) = size (YMap m)"
  by (induction m) (auto split: if_splits)

lemma size_update_str:
  "map_of m k = Some (YStr w) \<Longrightarrow> size (YMap (AList.update k (YStr s) m)) = size (YMap m)"
  by (induction m) (auto split: if_splits)

lemma size_envLoop: "size (YSeq (envLoop images env)) = size (YSeq env)"
proof (induction env)
  case Nil
  show ?case by simp
next
  case (Cons kvInterface rest)
  have upd2: "\<And>kv w s. map_of kv ''value'' = Some (YStr w) \<Longrightarrow>
      map_of (AList.update ''value'' (YStr s) kv) ''value'' = Some (YStr s)"
    by (simp add: update_conv')
  from Cons show ?case
    using size_update_str upd2
    by (auto split: yaml.splits option.splits simp: Let_def)
qed

lemma size_updateContainerEnv:
  "size (YMap (updateContainerEnv images c)) = size (YMap c)"
  unfolding updateContainerEnv_def
  using size_envLoop size_update_same
  by (auto split: option.splits yaml.splits)

lemma size_containersLoop:
  "containersLoop images cs = Returned e cs' \<Longrightarrow> size (YSeq cs') = size (YSeq cs)"
proof (induction cs arbitrary: e cs')
  case Nil
  then show ?case by simp
next
  case (Cons c rest)
  then show ?case
    using size_updateContainerEnv size_update_str
    by (auto split: yaml.splits option.splits outcome.splits if_splits simp: Let_def consOutcome_def)
qed

lemma size_updateContainers:
  "updateContainers images obj path = Returned e obj' \<Longrightarrow> size (YMap obj') = size (YMap obj)"
  unfolding updateContainers_def
  using size_containersLoop size_update_same
  by (auto split: option.splits yaml.splits outcome.splits)

lemma size_updateContainer:
  "updateContainer images obj path = Returned e obj' \<Longrightarrow> size (YMap obj') = size (YMap obj)"
  unfolding updateContainer_def
  using size_updateContainerEnv size_update_str size_update_same
  by (auto split: option.splits yaml.splits outcome.splits if_splits simp: Let_def)

lemma size_pathsLoop:
  assumes "\<forall>obj path e obj'. handler obj path = Returned e obj' \<longrightarrow> size (YMap obj') = size (YMap obj)"
  shows "pathsLoop handler paths found obj = Returned e (found', obj') \<Longrightarrow> size (YMap obj') = size (YMap obj)"
proof (induction paths arbitrary: found obj)
  case Nil
  then show ?case by simp
next
  case (Cons path paths)
  show ?case
  proof (cases "map_of obj path \<noteq> None")
    case False
    with Cons show ?thesis by simp
  next
    case True
    show ?thesis
    proof (cases "handler obj path")
      case Panicked
      with True Cons.prems show ?thesis by simp
    next
      case (Returned e1 obj1)
      with assms have s1: "size (YMap obj1) = size (YMap obj)" by blast
      show ?thesis
      proof (cases e1)
        case None
        with True Returned Cons.prems
        have "pathsLoop handler paths True obj1 = Returned e (found', obj')" by simp
        from Cons.IH[OF this] s1 show ?thesis by simp
      next
        case (Some err)
        with True Returned Cons.prems s1 show ?thesis by simp
      qed
    qed
  qed
qed

lemma size_updateShapes:
  assumes "updateShapes images obj = Returned e (found, obj')"
  shows "size (YMap obj') = size (YMap obj)"
proof -
  have h1: "\<forall>obj path e obj'. updateContainer images obj path = Returned e obj'
              \<longrightarrow> size (YMap obj') = size (YMap obj)"
    using size_updateContainer by blast
  have h2: "\<forall>obj path e obj'. updateContainers images obj path = Returned e obj'
              \<longrightarrow> size (YMap obj') = size (YMap obj)"
    using size_updateContainers by blast
  show ?thesis
  proof (cases "pathsLoop (updateContainer images) [''container'', ''spec''] False obj")
    case Panicked
    with assms show ?thesis by (simp add: updateShapes_def)
  next
    case (Returned e1 r1)
    obtain f1 o1 where r1: "r1 = (f1, o1)" by (cases r1)
    from size_pathsLoop[OF h1] Returned r1 have s1: "size (YMap o1) = size (YMap obj)" by blast
    show ?thesis
    proof (cases e1)
      case (Some err)
      with Returned r1 assms s1 show ?thesis by (simp add: updateShapes_def)
    next
      case None
      with Returned r1 assms
      have "pathsLoop (updateContainers images) [''containers'', ''initContainers''] f1 o1
              = Returned e (found, obj')"
        by (simp add: updateShapes_def)
      from size_pathsLoop[OF h2 this] s1 show ?thesis by simp
    qed
  qed
qed

text \<open>
  After the two loops \<^verbatim>\<open>found\<close> holds what the last path assigned to it, that is
  whether the key \<^verbatim>\<open>initContainers\<close> is present. findContainers ranges over the
  entries; an entry that holds a mapping is searched, an entry that holds a sequence has
  its mapping elements searched (findItems is that inner loop).
\<close>

function findAndReplaceTag :: "imagemap \<Rightarrow> obj \<Rightarrow> obj outcome"
  and findContainers :: "imagemap \<Rightarrow> obj \<Rightarrow> obj outcome"
  and findItems :: "imagemap \<Rightarrow> yaml list \<Rightarrow> yaml list outcome"
where
  "findAndReplaceTag images obj =
     (case updateShapes images obj of
        Panicked \<Rightarrow> Panicked
      | Returned (Some err) (found, obj') \<Rightarrow> Returned (Some err) obj'
      | Returned None (found, obj') \<Rightarrow>
          (if \<not> found then findContainers images obj' else Returned None obj'))"
| "findContainers images [] = Returned None []"
| "findContainers images ((key, v) # rest) =
     (case v of
        YMap typedV \<Rightarrow>
          (case findAndReplaceTag images typedV of
             Panicked \<Rightarrow> Panicked
           | Returned (Some err) typedV' \<Rightarrow> Returned (Some err) ((key, YMap typedV') # rest)
           | Returned None typedV' \<Rightarrow>
               consOutcome (key, YMap typedV') (findContainers images rest))
      | YSeq typedV \<Rightarrow>
          (case findItems images typedV of
             Panicked \<Rightarrow> Panicked
           | Returned (Some err) typedV' \<Rightarrow> Returned (Some err) ((key, YSeq typedV') # rest)
           | Returned None typedV' \<Rightarrow>
               consOutcome (key, YSeq typedV') (findContainers images rest))
      | _ \<Rightarrow> consOutcome (key, v) (findContainers images rest))"
| "findItems images [] = Returned None []"
| "findItems images (item # rest) =
     (case item of
        YMap typedItem \<Rightarrow>
          (case findAndReplaceTag images typedItem of
             Panicked \<Rightarrow> Panicked
           | Returned (Some err) typedItem' \<Rightarrow> Returned (Some err) (YMap typedItem' # rest)
           | Returned None typedItem' \<Rightarrow>
               consOutcome (YMap typedItem') (findItems images rest))
      | _ \<Rightarrow> consOutcome item (findItems images rest))"
  by pat_completeness auto
termination
proof (relation "measure (\<lambda>x. case x of
          Inl (images, obj) \<Rightarrow> 2 * size (YMap obj) + 1
        | Inr (Inl (images, obj)) \<Rightarrow> 2 * size (YMap obj)
        | Inr (Inr (images, items)) \<Rightarrow> 2 * size (YSeq items))", goal_cases)
  case (2 images obj e r found obj')
  then show ?case using size_updateShapes[of images obj None found obj'] by simp
qed simp_all

declare findAndReplaceTag.simps [simp del]

section \<open>ResolveImages\<close>

text \<open>
  The decoder, the serializer and the output writer are libraries. The input is the
  list of results the successive calls of \<^verbatim>\<open>decoder.Decode\<close> give before the input ends
  (a decoded document or an error); once the list is used up, Decode gives \<^verbatim>\<open>io.EOF\<close>.
  The serializer and the writer are arguments of the model.
\<close>

datatype decoded = Document obj | Failure error

type_synonym marshaller = "obj \<Rightarrow> string option"

type_synonym 'w writer = "'w \<Rightarrow> string \<Rightarrow> error option \<times> 'w"

text \<open>
  \<^verbatim>\<open>obj.GetName()\<close> and \<^verbatim>\<open>obj.GetKind()\<close> of an unstructured object read the string at
  \<^verbatim>\<open>metadata.name\<close> and at \<^verbatim>\<open>kind\<close>, and give the empty string when the field is
  missing or holds no string.
\<close>

definition GetName :: "obj \<Rightarrow> string" where
  "GetName obj =
     (case map_of obj ''metadata'' of
        Some (YMap metadata) \<Rightarrow>
          (case map_of metadata ''name'' of Some (YStr s) \<Rightarrow> s | _ \<Rightarrow> [])
      | _ \<Rightarrow> [])"

definition GetKind :: "obj \<Rightarrow> string" where
  "GetKind obj = (case map_of obj ''kind'' of Some (YStr s) \<Rightarrow> s | _ \<Rightarrow> [])"

definition missingInNull :: string where
  "missingInNull = ''is missing in '' @ [CHR 0x27] @ ''null'' @ [CHR 0x27]"

text \<open>
  isEmptyYamlError looks for the phrase in the error's text. The text of \<^verbatim>\<open>io.EOF\<close> is
  \<^verbatim>\<open>EOF\<close>; only the decoder's errors reach this function.
\<close>

fun isEmptyYamlError :: "error \<Rightarrow> bool" where
  "isEmptyYamlError (DecodeError msg) = contains msg missingInNull"
| "isEmptyYamlError _ = False"

definition separator :: string where
  "separator = ''---'' @ [CHR 0x0A]"

text \<open>
  The loop of ResolveImages. The value findAndReplaceTag returns is not read by the
  source (line 43 calls it as a statement), so the object goes on to the serializer as
  the search left it, error or not.
\<close>

fun decodeLoop ::
  "marshaller \<Rightarrow> 'w writer \<Rightarrow> imagemap \<Rightarrow> decoded list \<Rightarrow> bool \<Rightarrow> 'w \<Rightarrow> 'w outcome" where
  "decodeLoop marshal write images [] firstObj out = Returned None out"
| "decodeLoop marshal write images (Failure err # rest) firstObj out =
     (if isEmptyYamlError err then decodeLoop marshal write images rest firstObj out
      else if err \<noteq> EOF then Returned (Some err) out
      else Returned None out)"
| "decodeLoop marshal write images (Document obj # rest) firstObj out =
     (if GetName obj = [] then Returned (Some (MissingName obj)) out
      else if GetKind obj = [] then Returned (Some (MissingKind obj)) out
      else
        (case findAndReplaceTag images obj of
           Panicked \<Rightarrow> Panicked
         | Returned ignored obj' \<Rightarrow>
             (case marshal obj' of
                None \<Rightarrow> Returned (Some (MarshalFailed obj')) out
              | Some buf \<Rightarrow>
                  (if firstObj then
                     (case write out buf of
                        (Some err, out') \<Rightarrow> Returned (Some err) out'
                      | (None, out') \<Rightarrow> decodeLoop marshal write images rest False out')
                   else
                     (case write out separator of
                        (Some err, out1) \<Rightarrow> Returned (Some err) out1
                      | (None, out1) \<Rightarrow>
                          (case write out1 buf of
                             (Some err, out') \<Rightarrow> Returned (Some err) out'
                           | (None, out') \<Rightarrow>
                               decodeLoop marshal write images rest False out'))))))"

definition ResolveImages ::
  "marshaller \<Rightarrow> 'w writer \<Rightarrow> imagemap \<Rightarrow> decoded list \<Rightarrow> 'w \<Rightarrow> 'w outcome" where
  "ResolveImages marshal write images inp out = decodeLoop marshal write images inp True out"

subsection \<open>A serializer and a writer to run the model with\<close>

text \<open>
  To run ResolveImages on a concrete stream the examples below write into a byte buffer
  that starts empty and never fails (Go's \<^verbatim>\<open>bytes.Buffer\<close>), and serialize with a compact
  JSON rendering in the order of the entries, which never fails either. The theorems that
  are stated for every serializer and every writer do not depend on these two.
\<close>

definition bufferWrite :: "string writer" where
  "bufferWrite out p = (None, out @ p)"

text \<open>
  A writer with room for \<open>limit\<close> bytes: a write that does not fit writes what fits
  and returns an error.
\<close>

definition boundedWrite :: "nat \<Rightarrow> string writer" where
  "boundedWrite limit out p =
     (if length out + length p \<le> limit then (None, out @ p)
      else (Some (WriteError ''short write''), out @ take (limit - length out) p))"

fun showDigits :: "nat \<Rightarrow> nat \<Rightarrow> string" where
  "showDigits 0 n = []"
| "showDigits (Suc fuel) n =
     (if n < 10 then [char_of (48 + n)]
      else showDigits fuel (n div 10) @ [char_of (48 + n mod 10)])"

definition showInt :: "int \<Rightarrow> string" where
  "showInt i = (if i < 0 then ''-'' else []) @ showDigits (Suc (nat \<bar>i\<bar>)) (nat \<bar>i\<bar>)"

definition quoted :: "string \<Rightarrow> string" where
  "quoted s = [CHR 0x22] @ s @ [CHR 0x22]"

fun commaSep :: "string list \<Rightarrow> string" where
  "commaSep [] = []"
| "commaSep [x] = x"
| "commaSep (x # y # rest) = x @ '','' @ commaSep (y # rest)"

fun renderJSON :: "yaml \<Rightarrow> string" where
  "renderJSON YNull = ''null''"
| "renderJSON (YBool b) = (if b then ''true'' else ''false'')"
| "renderJSON (YNum i) = showInt i"
| "renderJSON (YStr s) = quoted s"
| "renderJSON (YSeq xs) = ''['' @ commaSep (map renderJSON xs) @ '']''"
| "renderJSON (YMap kvs) =
     ''{'' @ commaSep (map (\<lambda>(k, v). quoted k @ '':'' @ renderJSON v) kvs) @ ''}''"

definition marshalJSON :: marshaller where
  "marshalJSON obj = Some (renderJSON (YMap obj) @ [CHR 0x0A])"

section \<open>The app-credential hosting backend\<close>

text \<open>
  \<^verbatim>\<open>gh.PullRequests.Create\<close> is a call to the hosting provider. It gives the created
  request, or an error together with the HTTP response when there is one (its status
  code is what CreatePR reads).
\<close>

datatype apiResponse =
    Created string
  | Rejected "nat option" string

datatype callResult =
    Success            \<comment> \<open>returns nil\<close>
  | Failed string      \<comment> \<open>returns a non-nil error\<close>
  | Fatal string       \<comment> \<open>\<^verbatim>\<open>log.Fatal\<close>: the process exits\<close>
  | NilDereference     \<comment> \<open>reads a field of a nil response: a panic\<close>

record appFlags =
  repoOwner :: string
  repo :: string
  gitHubAppId :: int
  githubEnterpriseHost :: string

definition StatusUnprocessableEntity :: nat where
  "StatusUnprocessableEntity = 422"

text \<open>
  CreatePR, the entry point the orchestrator's server table holds. \<open>keyError\<close> is the
  error of reading the private key, \<open>clientError\<close> says whether building the enterprise
  client failed (the source returns nil there).
\<close>

definition CreatePR :: "appFlags \<Rightarrow> string option \<Rightarrow> bool \<Rightarrow> apiResponse \<Rightarrow> callResult" where
  "CreatePR flags keyError clientError response =
     (if repoOwner flags = [] then Failed ''github_app_repo_owner must be set''
      else if repo flags = [] then Failed ''github_app_repo must be set''
      else if gitHubAppId flags = 0 then Failed ''github_app_id must be set''
      else
        (case keyError of
           Some err \<Rightarrow> Failed err
         | None \<Rightarrow>
             (if githubEnterpriseHost flags \<noteq> [] \<and> clientError then Success
              else
                (case response of
                   Created url \<Rightarrow> Success
                 | Rejected resp err \<Rightarrow>
                     (case resp of
                        None \<Rightarrow> NilDereference
                      | Some statusCode \<Rightarrow>
                          (if statusCode = StatusUnprocessableEntity then Success
                           else Failed err))))))"

text \<open>createPR, the last step of CreateCommit: any error of the provider is fatal.\<close>

definition createPR :: "apiResponse \<Rightarrow> callResult" where
  "createPR response =
     (case response of
        Created url \<Rightarrow> Success
      | Rejected resp err \<Rightarrow> Fatal (''failed to create PR: '' @ err))"

text \<open>
  CreateCommit runs createGithubClient, getFilesToCommit, getRef, getTree, pushCommit and
  createPR in this order; each of the first five ends the process when a call of its own
  fails. The record says which of these calls succeed.
\<close>

record commitCalls =
  clientCreated :: bool
  filesFound :: bool
  refCreated :: bool
  treeCreated :: bool
  commitPushed :: bool
  prResponse :: apiResponse

definition CreateCommit :: "commitCalls \<Rightarrow> callResult" where
  "CreateCommit calls =
     (if \<not> clientCreated calls then Fatal ''createGithubClient''
      else if \<not> filesFound calls then Fatal ''failed to get files to commit''
      else if \<not> refCreated calls then Fatal ''getRef''
      else if \<not> treeCreated calls then Fatal ''failed to create tree''
      else if \<not> commitPushed calls then Fatal ''pushCommit''
      else createPR (prResponse calls))"

section \<open>The orchestrator\<close>

text \<open>
  main works on one checkout through the git package, runs the targets' executables and
  the push commands, and publishes. What these calls give is the record \<open>world\<close>; what
  main does to the outside is the list of events, in order. The packages \<^verbatim>\<open>git\<close>,
  \<^verbatim>\<open>exec\<close> and \<^verbatim>\<open>commitmsg\<close> are not among the sources.

  Modelled from the spec: \<^verbatim>\<open>SwitchToBranch\<close> switches to the branch when it exists and
  creates it from the target branch when it does not; its result says that it created
  the branch. \<^verbatim>\<open>exec.Mustex\<close> ends the process when the command fails, and so does
  \<^verbatim>\<open>workdir.Push\<close>. \<^verbatim>\<open>commitmsg.ExtractTargets\<close> gives the target list embedded in a
  commit message.
\<close>

datatype event =
    MkdirTemp string
  | Clone string
  | SwitchToBranch string
  | RecreateBranch string
  | RunTarget string
  | GetModifiedFiles
  | Commit string
  | PushImages
  | PublishCommit
  | PushBranches "string list"
  | OpenPR string
  | RemoveAll string

text \<open>
  How the process ends. \<^verbatim>\<open>log.Fatal\<close> and \<^verbatim>\<open>log.Fatalf\<close> print and call \<^verbatim>\<open>os.Exit(1)\<close>,
  which does not run deferred calls; a return from main and a panic do.
\<close>

datatype exit = Returns | Exits | Panics

record world =
  tempDir :: "string option"                    \<comment> \<open>\<^verbatim>\<open>os.MkdirTemp\<close>: the directory, or an error\<close>
  cloned :: bool                                \<comment> \<open>\<^verbatim>\<open>git.Clone\<close> succeeds\<close>
  branchCreated :: "string \<Rightarrow> bool"             \<comment> \<open>result of \<^verbatim>\<open>SwitchToBranch\<close> for the branch\<close>
  lastCommitTargets :: "string \<Rightarrow> string list"  \<comment> \<open>\<^verbatim>\<open>ExtractTargets(GetLastCommitMessage())\<close> on the branch\<close>
  targetRuns :: "string \<Rightarrow> bool"                \<comment> \<open>the target's executable succeeds\<close>
  modifiedFiles :: "string \<Rightarrow> string list option" \<comment> \<open>\<^verbatim>\<open>GetModifiedFiles\<close> on the branch, or an error\<close>
  committed :: "string \<Rightarrow> bool"                 \<comment> \<open>result of \<^verbatim>\<open>workdir.Commit\<close> on the branch\<close>
  imagesPushed :: bool                          \<comment> \<open>every push command succeeds\<close>
  buildkiteCommit :: string                     \<comment> \<open>\<^verbatim>\<open>BUILDKITE_COMMIT\<close>\<close>
  commitCallsOf :: commitCalls                  \<comment> \<open>the calls of \<^verbatim>\<open>github_app.CreateCommit\<close>\<close>
  branchesPushed :: bool                        \<comment> \<open>\<^verbatim>\<open>workdir.Push\<close> succeeds\<close>
  prOpened :: "string \<Rightarrow> bool"                  \<comment> \<open>\<^verbatim>\<open>server.CreatePR\<close> returns nil for the branch\<close>

record config =
  DryRun :: bool
  GitHost :: string
  DeploymentBranchSuffix :: string

subsection \<open>Branch selection\<close>

text \<open>The set \<^verbatim>\<open>currentTargets\<close> the loop builds, a \<^verbatim>\<open>map[string]bool\<close>.\<close>

definition currentTargets :: "string list \<Rightarrow> (string \<rightharpoonup> bool)" where
  "currentTargets targets = fold (\<lambda>t m. m(t \<mapsto> True)) targets Map.empty"

definition isCurrent :: "(string \<rightharpoonup> bool) \<Rightarrow> string \<Rightarrow> bool" where
  "isCurrent current t = (case current t of Some b \<Rightarrow> b | None \<Rightarrow> False)"

text \<open>The loop over the extracted targets, which breaks after RecreateBranch.\<close>

fun recreateScan :: "(string \<rightharpoonup> bool) \<Rightarrow> string \<Rightarrow> string list \<Rightarrow> event list" where
  "recreateScan current branch [] = []"
| "recreateScan current branch (t # ts) =
     (if \<not> isCurrent current t then [RecreateBranch branch]
      else recreateScan current branch ts)"

definition branchName :: "config \<Rightarrow> string \<Rightarrow> string" where
  "branchName cfg train = ''deploy/'' @ train @ DeploymentBranchSuffix cfg"

definition selectBranch :: "world \<Rightarrow> config \<Rightarrow> string \<Rightarrow> string list \<Rightarrow> event list" where
  "selectBranch w cfg train targets =
     (let branch = branchName cfg train in
      SwitchToBranch branch #
      (if \<not> branchCreated w branch
       then recreateScan (currentTargets targets) branch (lastCommitTargets w branch)
       else []))"

subsection \<open>The run\<close>

text \<open>
  The loop over a train's targets: \<^verbatim>\<open>exec.Mustex\<close> on each executable. The flag says
  whether every command succeeded; at the first that fails the process exits.
\<close>

fun runTargets :: "world \<Rightarrow> string list \<Rightarrow> event list \<times> bool" where
  "runTargets w [] = ([], True)"
| "runTargets w (target # targets) =
     (if targetRuns w target then
        (case runTargets w targets of (es, ok) \<Rightarrow> (RunTarget target # es, ok))
      else ([RunTarget target], False))"

text \<open>
  The loop over the trains, a Go map ranged over in the order of the list. It carries
  \<^verbatim>\<open>updatedTargets\<close>, \<^verbatim>\<open>updatedBranches\<close> and \<^verbatim>\<open>modifiedFiles\<close>; the result \<open>None\<close> is
  a fatal exit inside the loop.
\<close>

type_synonym updates = "string list \<times> string list \<times> string list"

fun processTrains ::
  "world \<Rightarrow> config \<Rightarrow> (string \<times> string list) list \<Rightarrow> updates \<Rightarrow> event list \<times> updates option" where
  "processTrains w cfg [] acc = ([], Some acc)"
| "processTrains w cfg ((train, targets) # rest) (updatedTargets, updatedBranches, files) =
     (let branch = branchName cfg train;
          selected = selectBranch w cfg train targets
      in case runTargets w targets of
           (runs, False) \<Rightarrow> (selected @ runs, None)
         | (runs, True) \<Rightarrow>
             (case modifiedFiles w branch of
                None \<Rightarrow> (selected @ runs @ [GetModifiedFiles], None)
              | Some fs \<Rightarrow>
                  (case processTrains w cfg rest
                          (if committed w branch
                           then (updatedTargets @ targets, updatedBranches @ [branch], files @ fs)
                           else (updatedTargets, updatedBranches, files @ fs)) of
                     (es, r) \<Rightarrow> (selected @ runs @ [GetModifiedFiles, Commit branch] @ es, r))))"

text \<open>createPullRequests: the server table, then one CreatePR per branch.\<close>

fun openPRs :: "world \<Rightarrow> string list \<Rightarrow> event list \<times> bool" where
  "openPRs w [] = ([], True)"
| "openPRs w (branch # branches) =
     (if prOpened w branch then
        (case openPRs w branches of (es, ok) \<Rightarrow> (OpenPR branch # es, ok))
      else ([OpenPR branch], False))"

definition createPullRequests :: "world \<Rightarrow> config \<Rightarrow> string list \<Rightarrow> event list \<times> bool" where
  "createPullRequests w cfg branches =
     (if DryRun cfg then ([], True)
      else if GitHost cfg \<notin> {''github'', ''gitlab'', ''bitbucket'', ''github_app''} then ([], False)
      else openPRs w branches)"

text \<open>
  main from the check of the trains on. \<open>afterClone\<close> is everything after
  \<^verbatim>\<open>defer os.RemoveAll(gitopsDir)\<close>: it gives the events and how the process ends, and
  main runs the deferred call unless the process ended by \<^verbatim>\<open>os.Exit\<close>. The push phase
  (processResolvedImages or processImages) is one event here.
\<close>

definition publish :: "world \<Rightarrow> config \<Rightarrow> string list \<Rightarrow> event list \<times> exit" where
  "publish w cfg updatedBranches =
     (if DryRun cfg then ([], Returns)
      else if length (buildkiteCommit w) < 7 then ([], Panics)
      else if GitHost cfg = ''github_app'' then
        (case CreateCommit (commitCallsOf w) of
           Success \<Rightarrow> ([PublishCommit], Returns)
         | _ \<Rightarrow> ([PublishCommit], Exits))
      else if \<not> branchesPushed w then ([PushBranches updatedBranches], Exits)
      else
        (case createPullRequests w cfg updatedBranches of
           (es, ok) \<Rightarrow> (PushBranches updatedBranches # es, if ok then Returns else Exits)))"

definition afterClone ::
  "world \<Rightarrow> config \<Rightarrow> (string \<times> string list) list \<Rightarrow> string \<Rightarrow> event list \<times> exit" where
  "afterClone w cfg trains gitopsDir =
     (if \<not> cloned w then ([Clone gitopsDir], Exits)
      else
        (case processTrains w cfg trains ([], [], []) of
           (es, None) \<Rightarrow> (Clone gitopsDir # es, Exits)
         | (es, Some (updatedTargets, updatedBranches, files)) \<Rightarrow>
             (if updatedTargets = [] then (Clone gitopsDir # es, Returns)
              else if \<not> imagesPushed w then (Clone gitopsDir # es @ [PushImages], Exits)
              else
                (case publish w cfg updatedBranches of
                   (ps, ex) \<Rightarrow> (Clone gitopsDir # es @ [PushImages] @ ps, ex)))))"

definition main :: "world \<Rightarrow> config \<Rightarrow> (string \<times> string list) list \<Rightarrow> event list \<times> exit" where
  "main w cfg trains =
     (if trains = [] then ([], Returns)
      else
        (case tempDir w of
           None \<Rightarrow> ([], Exits)
         | Some gitopsDir \<Rightarrow>
             (case afterClone w cfg trains gitopsDir of
                (es, ex) \<Rightarrow>
                  (MkdirTemp gitopsDir # es @ (if ex = Exits then [] else [RemoveAll gitopsDir]),
                   ex))))"

section \<open>Notions of the statements\<close>

text \<open>
  The error with which ResolveImages turns an item of the stream down before it writes
  anything for it: a decoder error that is neither the empty-document error nor the end
  of the input, a document without name or kind, a document the serializer fails on.
\<close>

definition rejection :: "marshaller \<Rightarrow> imagemap \<Rightarrow> decoded \<Rightarrow> error option" where
  "rejection marshal images d =
     (case d of
        Failure err \<Rightarrow> (if isEmptyYamlError err \<or> err = EOF then None else Some err)
      | Document obj \<Rightarrow>
          (if GetName obj = [] then Some (MissingName obj)
           else if GetKind obj = [] then Some (MissingKind obj)
           else
             (case findAndReplaceTag images obj of
                Panicked \<Rightarrow> None
              | Returned ignored obj' \<Rightarrow>
                  (case marshal obj' of
                     None \<Rightarrow> Some (MarshalFailed obj')
                   | Some buf \<Rightarrow> None))))"

text \<open>
  An env entry the loop of updateContainerEnv passes without returning: a mapping with a
  string name and, when the name contains \<^verbatim>\<open>IMAGE_URL\<close>, a string value.
\<close>

definition envEntryScanned :: "yaml \<Rightarrow> bool" where
  "envEntryScanned e =
     (case e of
        YMap kv \<Rightarrow>
          (case map_of kv ''name'' of
             Some (YStr envName) \<Rightarrow>
               (if contains envName ''IMAGE_URL''
                then (case map_of kv ''value'' of Some (YStr envValue) \<Rightarrow> True | _ \<Rightarrow> False)
                else True)
           | _ \<Rightarrow> False)
      | _ \<Rightarrow> False)"

text \<open>What the type assertions of the handlers ask of a value.\<close>

definition isMapping :: "yaml \<Rightarrow> bool" where
  "isMapping v = (case v of YMap m \<Rightarrow> True | _ \<Rightarrow> False)"

definition isSequence :: "yaml \<Rightarrow> bool" where
  "isSequence v = (case v of YSeq xs \<Rightarrow> True | _ \<Rightarrow> False)"

text \<open>
  The first container-shape field of a node, in the order in which findAndReplaceTag
  looks for them.
\<close>

definition firstShape :: "obj \<Rightarrow> (string \<times> yaml) option" where
  "firstShape obj =
     (case map_of obj ''container'' of
        Some v \<Rightarrow> Some (''container'', v)
      | None \<Rightarrow>
     (case map_of obj ''spec'' of
        Some v \<Rightarrow> Some (''spec'', v)
      | None \<Rightarrow>
     (case map_of obj ''containers'' of
        Some v \<Rightarrow> Some (''containers'', v)
      | None \<Rightarrow>
     (case map_of obj ''initContainers'' of
        Some v \<Rightarrow> Some (''initContainers'', v)
      | None \<Rightarrow> None))))"

text \<open>
  What the loop of ResolveImages writes for one serialized document (lines 48 to 59): the
  separator first unless the document is the first one written, then the bytes; the
  first write that fails ends it.
\<close>

definition emit :: "'w writer \<Rightarrow> bool \<Rightarrow> 'w \<Rightarrow> string \<Rightarrow> error option \<times> 'w" where
  "emit writer firstObj out buf =
     (if firstObj then writer out buf
      else
        (case writer out separator of
           (Some err, out1) \<Rightarrow> (Some err, out1)
         | (None, out1) \<Rightarrow> writer out1 buf))"

text \<open>
  The bytes of an item that reaches the writer: a document with name and kind whose
  search returns and which the serializer accepts. \<open>noDocument\<close> says that a part of the
  stream holds decoder errors only.
\<close>

definition serialization :: "marshaller \<Rightarrow> imagemap \<Rightarrow> decoded \<Rightarrow> string option" where
  "serialization marshal images d =
     (case d of
        Failure err \<Rightarrow> None
      | Document obj \<Rightarrow>
          (if GetName obj = [] then None
           else if GetKind obj = [] then None
           else
             (case findAndReplaceTag images obj of
                Panicked \<Rightarrow> None
              | Returned ignored obj' \<Rightarrow> marshal obj')))"

definition noDocument :: "decoded list \<Rightarrow> bool" where
  "noDocument items = list_all (\<lambda>d. case d of Document obj \<Rightarrow> False | Failure err \<Rightarrow> True) items"

text \<open>
  The four container-shape fields in the order of findAndReplaceTag, and the handler of
  each.
\<close>

definition shapePaths :: "string list" where
  "shapePaths = [''container'', ''spec'', ''containers'', ''initContainers'']"

definition handleShape :: "imagemap \<Rightarrow> obj \<Rightarrow> string \<Rightarrow> obj outcome" where
  "handleShape images obj path =
     (if path = ''container'' \<or> path = ''spec'' then updateContainer images obj path
      else updateContainers images obj path)"

text \<open>
  The search reaches an ill-typed container-shape field of a node. At the node itself
  (the first three rules): the shape fields before the field are handled without error,
  and the field is a \<^verbatim>\<open>container\<close> or \<^verbatim>\<open>spec\<close> that holds no mapping, a \<^verbatim>\<open>containers\<close> or
  \<^verbatim>\<open>initContainers\<close> that holds no sequence, or such a sequence with an element that is no
  mapping and before which the elements return no error. Below the node (the last two
  rules): every shape field of the node is handled without error, the node has no
  \<^verbatim>\<open>initContainers\<close> key, the entries ranged over before return no error, and the search
  reaches an ill-typed field in the next entry's mapping, or in a mapping of the next
  entry's sequence before which the elements return no error. The entries are those of
  the node as the handlers have left it.
\<close>

inductive reachesIllTyped :: "imagemap \<Rightarrow> obj \<Rightarrow> bool" for images :: imagemap where
  single:
    "shapePaths = before @ path # after \<Longrightarrow> path = ''container'' \<or> path = ''spec'' \<Longrightarrow>
     pathsLoop (handleShape images) before False obj = Returned None (found, obj1) \<Longrightarrow>
     map_of obj path = Some v \<Longrightarrow> \<not> isMapping v \<Longrightarrow>
     reachesIllTyped images obj"
| sequence:
    "shapePaths = before @ path # after \<Longrightarrow> path = ''containers'' \<or> path = ''initContainers'' \<Longrightarrow>
     pathsLoop (handleShape images) before False obj = Returned None (found, obj1) \<Longrightarrow>
     map_of obj path = Some v \<Longrightarrow> \<not> isSequence v \<Longrightarrow>
     reachesIllTyped images obj"
| element:
    "shapePaths = before @ path # after \<Longrightarrow> path = ''containers'' \<or> path = ''initContainers'' \<Longrightarrow>
     pathsLoop (handleShape images) before False obj = Returned None (found, obj1) \<Longrightarrow>
     map_of obj path = Some (YSeq (pre @ c # post)) \<Longrightarrow>
     containersLoop images pre = Returned None pre' \<Longrightarrow> \<not> isMapping c \<Longrightarrow>
     reachesIllTyped images obj"
| child:
    "updateShapes images obj = Returned None (found, obj') \<Longrightarrow>
     map_of obj ''initContainers'' = None \<Longrightarrow>
     obj' = earlier @ (key, YMap m) # later \<Longrightarrow>
     findContainers images earlier = Returned None earlier' \<Longrightarrow>
     reachesIllTyped images m \<Longrightarrow>
     reachesIllTyped images obj"
| item:
    "updateShapes images obj = Returned None (found, obj') \<Longrightarrow>
     map_of obj ''initContainers'' = None \<Longrightarrow>
     obj' = earlier @ (key, YSeq (pre @ YMap m # post)) # later \<Longrightarrow>
     findContainers images earlier = Returned None earlier' \<Longrightarrow>
     findItems images pre = Returned None pre' \<Longrightarrow>
     reachesIllTyped images m \<Longrightarrow>
     reachesIllTyped images obj"

text \<open>The same for the two loops of findContainers, from their first element on.\<close>

definition itemReaches :: "imagemap \<Rightarrow> yaml list \<Rightarrow> bool" where
  "itemReaches images items \<longleftrightarrow>
     (\<exists>pre m post pre'. items = pre @ YMap m # post
        \<and> findItems images pre = Returned None pre' \<and> reachesIllTyped images m)"

definition childReaches :: "imagemap \<Rightarrow> obj \<Rightarrow> bool" where
  "childReaches images entries \<longleftrightarrow>
     (\<exists>earlier key v later earlier'. entries = earlier @ (key, v) # later
        \<and> findContainers images earlier = Returned None earlier'
        \<and> ((\<exists>m. v = YMap m \<and> reachesIllTyped images m)
           \<or> (\<exists>items. v = YSeq items \<and> itemReaches images items)))"

section \<open>Inputs of the examples\<close>

definition twoTargetsWorld :: world where
  "twoTargetsWorld =
     \<lparr> tempDir = Some ''/tmp/gitops1'', cloned = True,
       branchCreated = (\<lambda>b. False),
       lastCommitTargets = (\<lambda>b. [''//svc:a'', ''//svc:b'']),
       targetRuns = (\<lambda>t. True),
       modifiedFiles = (\<lambda>b. Some []),
       committed = (\<lambda>b. False),
       imagesPushed = True,
       buildkiteCommit = ''0123456789abcdef'',
       commitCallsOf = \<lparr> clientCreated = True, filesFound = True, refCreated = True,
                         treeCreated = True, commitPushed = True,
                         prResponse = Created ''https://example.com/pr/1'' \<rparr>,
       branchesPushed = True,
       prOpened = (\<lambda>b. True) \<rparr>"

definition plainConfig :: config where
  "plainConfig = \<lparr> DryRun = False, GitHost = ''github'', DeploymentBranchSuffix = [] \<rparr>"

definition conflictCalls :: commitCalls where
  "conflictCalls =
     \<lparr> clientCreated = True, filesFound = True, refCreated = True, treeCreated = True,
       commitPushed = True,
       prResponse = Rejected (Some StatusUnprocessableEntity) ''A pull request already exists'' \<rparr>"

definition cloneFailsWorld :: world where
  "cloneFailsWorld = twoTargetsWorld \<lparr> cloned := False \<rparr>"

definition appImages :: imagemap where
  "appImages = [''//app:image'' \<mapsto> ''registry.example.com/app:abc123'']"

definition unresolvedPod :: obj where
  "unresolvedPod =
     [(''kind'', YStr ''Pod''),
      (''metadata'', YMap [(''name'', YStr ''web'')]),
      (''spec'', YMap [(''containers'',
          YSeq [YMap [(''name'', YStr ''app''), (''image'', YStr ''//app:image'')]])])]"

definition resolvedPod :: obj where
  "resolvedPod =
     [(''kind'', YStr ''Pod''),
      (''metadata'', YMap [(''name'', YStr ''web'')]),
      (''spec'', YMap [(''containers'',
          YSeq [YMap [(''name'', YStr ''app''),
                      (''image'', YStr ''registry.example.com/app:abc123'')]])])]"

definition containerTask :: obj where
  "containerTask =
     [(''kind'', YStr ''Task''),
      (''metadata'', YMap [(''name'', YStr ''build'')]),
      (''container'', YMap [(''name'', YStr ''app''), (''image'', YStr ''//app:image'')])]"

definition siblingNode :: obj where
  "siblingNode =
     [(''containers'', YSeq [YMap [(''image'', YStr ''//app:image'')]]),
      (''sidecars'', YMap [(''containers'', YSeq [YMap [(''image'', YStr ''//app:image'')]])])]"

definition siblingNodeResolved :: obj where
  "siblingNodeResolved =
     [(''containers'', YSeq [YMap [(''image'', YStr ''registry.example.com/app:abc123'')]]),
      (''sidecars'', YMap [(''containers'',
          YSeq [YMap [(''image'', YStr ''registry.example.com/app:abc123'')]])])]"

definition namelessDoc :: obj where
  "namelessDoc = [(''kind'', YStr ''ConfigMap''), (''metadata'', YMap [])]"

definition valueFromContainer :: obj where
  "valueFromContainer =
     [(''name'', YStr ''app''),
      (''env'', YSeq
         [YMap [(''name'', YStr ''BASE_IMAGE_URL''),
                (''valueFrom'', YMap [(''configMapKeyRef'', YMap [(''key'', YStr ''base'')])])],
          YMap [(''name'', YStr ''APP_IMAGE_URL''), (''value'', YStr ''//app:image'')]])]"

definition logLevelEntry :: obj where
  "logLevelEntry = [(''name'', YStr ''LOG_LEVEL''), (''value'', YStr ''debug'')]"

definition missingUrlEntry :: obj where
  "missingUrlEntry = [(''name'', YStr ''APP_IMAGE_URL''), (''value'', YStr ''//app:missing'')]"

definition unmappedEnvContainer :: obj where
  "unmappedEnvContainer =
     [(''name'', YStr ''app''), (''env'', YSeq [YMap logLevelEntry, YMap missingUrlEntry])]"

definition scalarSpecDoc :: obj where
  "scalarSpecDoc =
     [(''kind'', YStr ''Pod''), (''metadata'', YMap [(''name'', YStr ''web'')]),
      (''spec'', YStr ''pending'')]"

definition mixedContainersPod :: obj where
  "mixedContainersPod =
     [(''kind'', YStr ''Pod''),
      (''metadata'', YMap [(''name'', YStr ''web'')]),
      (''spec'', YMap [(''containers'',
          YSeq [YMap [(''name'', YStr ''app''), (''image'', YStr ''//app:image'')],
                YStr ''sidecar''])])]"

definition nullInitNode :: obj where
  "nullInitNode = [(''name'', YStr ''web''), (''initContainers'', YNull)]"

definition nginxContainer :: obj where
  "nginxContainer = [(''name'', YStr ''app''), (''image'', YStr ''nginx:1.27'')]"

definition mixedContainersNode :: obj where
  "mixedContainersNode = [(''containers'', YSeq [YMap nginxContainer, YStr ''sidecar''])]"

definition shieldedDoc :: obj where
  "shieldedDoc =
     [(''kind'', YStr ''Job''),
      (''metadata'', YMap [(''name'', YStr ''migrate'')]),
      (''initContainers'', YSeq []),
      (''template'', YMap [(''containers'', YStr ''none'')])]"

definition emptyDocumentError :: error where
  "emptyDocumentError =
     DecodeError (''Object '' @ [CHR 0x27] @ ''Kind'' @ [CHR 0x27] @ '' '' @ missingInNull)"

definition resolvedPodBytes :: string where
  "resolvedPodBytes = renderJSON (YMap resolvedPod) @ [CHR 0x0A]"

definition roomForSeparator :: "string writer" where
  "roomForSeparator = boundedWrite (length resolvedPodBytes + 4)"

definition oopsSpec :: obj where
  "oopsSpec = [(''containers'', YStr ''oops'')]"

definition illTypedPod :: obj where
  "illTypedPod =
     [(''kind'', YStr ''Pod''), (''metadata'', YMap [(''name'', YStr ''web'')]),
      (''spec'', YMap oopsSpec)]"

definition laterShapeNode :: obj where
  "laterShapeNode = [(''spec'', YMap []), (''containers'', YStr ''oops'')]"

definition unresolvedPodBytes :: string where
  "unresolvedPodBytes = renderJSON (YMap unresolvedPod) @ [CHR 0x0A]"

section \<open>Branch selection\<close>

lemma fold_currentTargets:
  "isCurrent (fold (\<lambda>t m. m(t \<mapsto> True)) targets m0) t \<longleftrightarrow> t \<in> set targets \<or> isCurrent m0 t"
  by (induction targets arbitrary: m0) (auto simp: isCurrent_def)

lemma isCurrent_currentTargets: "isCurrent (currentTargets targets) t \<longleftrightarrow> t \<in> set targets"
  by (simp add: currentTargets_def fold_currentTargets) (simp add: isCurrent_def)

lemma recreateScan_eq:
  "recreateScan current branch ts =
     (if \<exists>t \<in> set ts. \<not> isCurrent current t then [RecreateBranch branch] else [])"
  by (induction ts) auto

text \<open>
  C4. When the deployment branch of a train already exists at branch selection
  (\<^verbatim>\<open>SwitchToBranch\<close> did not create it), main calls \<^verbatim>\<open>RecreateBranch\<close>, once, exactly when
  the target list embedded in the branch's last commit message holds a target that is
  not among the train's current targets; when every embedded target is a current one
  (the current set is equal to the list or a superset of it), the branch is switched to
  and nothing else is done to it.
\<close>

theorem branch_recreated_iff_previous_target_removed:
  assumes "\<not> branchCreated w (branchName cfg train)"
  shows "selectBranch w cfg train targets =
           SwitchToBranch (branchName cfg train) #
           (if \<exists>t \<in> set (lastCommitTargets w (branchName cfg train)). t \<notin> set targets
            then [RecreateBranch (branchName cfg train)] else [])"
  using assms
  by (simp add: selectBranch_def Let_def recreateScan_eq isCurrent_currentTargets)

text \<open>
  The scenario of the specification: the previous commit embeds two targets; a train
  that has lost one of them recreates the branch, a train that has gained one reuses it.
\<close>

theorem branch_recreated_iff_previous_target_removed_witness:
  "\<not> branchCreated twoTargetsWorld (branchName plainConfig ''web'')
   \<and> selectBranch twoTargetsWorld plainConfig ''web'' [''//svc:a'']
       = [SwitchToBranch ''deploy/web'', RecreateBranch ''deploy/web'']
   \<and> selectBranch twoTargetsWorld plainConfig ''web'' [''//svc:a'', ''//svc:b'', ''//svc:c'']
       = [SwitchToBranch ''deploy/web'']"
  using branch_recreated_iff_previous_target_removed
          [of twoTargetsWorld plainConfig "''web''" "[''//svc:a'']"]
        branch_recreated_iff_previous_target_removed
          [of twoTargetsWorld plainConfig "''web''" "[''//svc:a'', ''//svc:b'', ''//svc:c'']"]
  by (simp add: twoTargetsWorld_def plainConfig_def branchName_def)

section \<open>Merge requests that already exist\<close>

lemma CreatePR_reuses_existing_request:
  "repoOwner flags \<noteq> [] \<Longrightarrow> repo flags \<noteq> [] \<Longrightarrow> gitHubAppId flags \<noteq> 0 \<Longrightarrow>
   CreatePR flags None False (Rejected (Some StatusUnprocessableEntity) err) = Success"
  by (simp add: CreatePR_def)

text \<open>
  C5. A merge-request creation that the provider answers with the conflict "already
  exists" is to return success. CreatePR does (the lemma above); createPR, the step that
  ends CreateCommit, does not: with every earlier call of the commit path succeeding, the
  conflict ends the process through \<^verbatim>\<open>log.Fatalf\<close>.
\<close>

theorem createPR_conflict_is_fatal:
  "createPR (prResponse conflictCalls) = Fatal ''failed to create PR: A pull request already exists''
   \<and> CreateCommit conflictCalls = Fatal ''failed to create PR: A pull request already exists''"
  by (simp add: createPR_def CreateCommit_def conflictCalls_def)

section \<open>The temporary checkout directory\<close>

lemma RemoveAll_notin_recreateScan: "RemoveAll d \<notin> set (recreateScan current branch ts)"
  by (induction ts) auto

lemma RemoveAll_notin_selectBranch: "RemoveAll d \<notin> set (selectBranch w cfg train targets)"
  by (simp add: selectBranch_def Let_def RemoveAll_notin_recreateScan)

lemma RemoveAll_notin_runTargets:
  "runTargets w targets = (es, ok) \<Longrightarrow> RemoveAll d \<notin> set es"
  by (induction targets arbitrary: es ok) (auto split: prod.splits if_splits)

lemma RemoveAll_notin_processTrains:
  "processTrains w cfg trains acc = (es, r) \<Longrightarrow> RemoveAll d \<notin> set es"
proof (induction trains arbitrary: acc es r)
  case Nil
  then show ?case by simp
next
  case (Cons tr rest)
  obtain train targets where tr: "tr = (train, targets)" by (cases tr)
  obtain ut ub fs where acc: "acc = (ut, ub, fs)" by (cases acc)
  obtain runs ok where runs: "runTargets w targets = (runs, ok)" by (cases "runTargets w targets")
  note sel = RemoveAll_notin_selectBranch[of d w cfg train targets]
  note rt = RemoveAll_notin_runTargets[OF runs, of d]
  show ?case
  proof (cases ok)
    case False
    with Cons.prems tr acc runs sel rt show ?thesis by (auto simp: Let_def)
  next
    case True
    show ?thesis
    proof (cases "modifiedFiles w (branchName cfg train)")
      case None
      with Cons.prems tr acc runs True sel rt show ?thesis by (auto simp: Let_def)
    next
      case (Some files)
      let ?acc' = "if committed w (branchName cfg train)
                   then (ut @ targets, ub @ [branchName cfg train], fs @ files)
                   else (ut, ub, fs @ files)"
      obtain es' r' where rec: "processTrains w cfg rest ?acc' = (es', r')"
        by (cases "processTrains w cfg rest ?acc'")
      from Cons.IH[OF rec] have "RemoveAll d \<notin> set es'" .
      with Cons.prems tr acc runs True Some rec sel rt show ?thesis
        by (auto simp: Let_def)
    qed
  qed
qed

lemma RemoveAll_notin_openPRs:
  "openPRs w branches = (es, ok) \<Longrightarrow> RemoveAll d \<notin> set es"
  by (induction branches arbitrary: es ok) (auto split: prod.splits if_splits)

lemma RemoveAll_notin_publish:
  "publish w cfg branches = (es, ex) \<Longrightarrow> RemoveAll d \<notin> set es"
  by (auto simp: publish_def createPullRequests_def
           split: prod.splits callResult.splits if_splits dest: RemoveAll_notin_openPRs)

lemma RemoveAll_notin_afterClone:
  "afterClone w cfg trains gitopsDir = (es, ex) \<Longrightarrow> RemoveAll d \<notin> set es"
  by (auto simp: afterClone_def split: prod.splits option.splits if_splits
           dest: RemoveAll_notin_processTrains RemoveAll_notin_publish)

lemma main_removes_unless_exit:
  assumes "trains \<noteq> []" and "tempDir w = Some gitopsDir" and "main w cfg trains = (es, ex)"
  shows "RemoveAll gitopsDir \<in> set es \<longleftrightarrow> ex \<noteq> Exits"
proof -
  obtain es' ex' where ac: "afterClone w cfg trains gitopsDir = (es', ex')"
    by (cases "afterClone w cfg trains gitopsDir")
  from RemoveAll_notin_afterClone[OF ac] have "RemoveAll gitopsDir \<notin> set es'" .
  with assms ac show ?thesis by (auto simp: main_def)
qed

text \<open>
  C7. The temporary directory is to be removed on every exit path of a run that created
  it. The removal is a deferred call, and the fatal exits go through \<^verbatim>\<open>log.Fatalf\<close>,
  that is \<^verbatim>\<open>os.Exit\<close>, which runs no deferred call (the lemma above: the directory is
  removed exactly when the process does not end by \<^verbatim>\<open>os.Exit\<close>). A run whose clone fails
  creates the directory and leaves it behind.
\<close>

theorem clone_failure_leaves_temporary_directory:
  "main cloneFailsWorld plainConfig [(''web'', [''//svc:a''])]
     = ([MkdirTemp ''/tmp/gitops1'', Clone ''/tmp/gitops1''], Exits)"
  by (simp add: main_def afterClone_def cloneFailsWorld_def twoTargetsWorld_def)

section \<open>Unresolved references and exact keys\<close>

lemma resolveImageName_exact:
  "images imagename = Some newname \<Longrightarrow> resolveImageName images imagename = Some newname"
  by (simp add: resolveImageName_def)

lemma map_of_updateContainerEnv_other:
  "k \<noteq> ''env'' \<Longrightarrow> map_of (updateContainerEnv images container) k = map_of container k"
  by (auto simp: updateContainerEnv_def update_conv' split: option.splits yaml.splits)

text \<open>
  What an exact key does under the two shapes: an element of a \<^verbatim>\<open>containers\<close> sequence
  is rewritten whatever the key looks like, the mapping of a \<^verbatim>\<open>container\<close> field only when
  the key does not begin with \<^verbatim>\<open>//\<close>.
\<close>

lemma containersLoop_exact_key:
  assumes "map_of container ''image'' = Some (YStr imagename)"
    and "images imagename = Some newname"
  shows "\<exists>container'. containersLoop images (YMap container # rest)
            = consOutcome (YMap container') (containersLoop images rest)
          \<and> map_of container' ''image'' = Some (YStr newname)"
proof -
  let ?c = "updateContainerEnv images container"
  have "map_of ?c ''image'' = Some (YStr imagename)"
    using assms(1) by (simp add: map_of_updateContainerEnv_other)
  then have "containersLoop images (YMap container # rest)
               = consOutcome (YMap (AList.update ''image'' (YStr newname) ?c))
                   (containersLoop images rest)"
    using resolveImageName_exact[of images imagename newname] assms(2) by (simp add: Let_def)
  moreover have "map_of (AList.update ''image'' (YStr newname) ?c) ''image'' = Some (YStr newname)"
    by (simp add: update_conv')
  ultimately show ?thesis by blast
qed

lemma updateContainer_exact_key:
  assumes "map_of obj path = Some (YMap container)"
    and "map_of container ''image'' = Some (YStr imagename)"
    and "images imagename = Some newname"
  shows "updateContainer images obj path =
           (if prefix ''//'' imagename
            then Returned (Some (UnresolvedSingleImage imagename))
                   (AList.update path (YMap (updateContainerEnv images container)) obj)
            else Returned None
                   (AList.update path
                      (YMap (AList.update ''image'' (YStr newname)
                               (updateContainerEnv images container))) obj))"
  using assms resolveImageName_exact[of images imagename newname]
  by (simp add: updateContainer_def Let_def map_of_updateContainerEnv_other)

lemma ResolveImages_drops_search_error:
  assumes "GetName obj \<noteq> []" and "GetKind obj \<noteq> []"
    and "findAndReplaceTag images obj = Returned err obj'"
    and "marshal obj' = Some buf"
  shows "ResolveImages marshal bufferWrite images [Document obj] out = Returned None (out @ buf)"
  using assms by (simp add: ResolveImages_def bufferWrite_def)

text \<open>
  The scenario of the specification, a container of a \<^verbatim>\<open>containers\<close> sequence whose image
  is an exact key of the image map:
\<close>

lemma pod_example:
  "ResolveImages marshalJSON bufferWrite appImages [Document unresolvedPod] []
     = Returned None (renderJSON (YMap resolvedPod) @ [CHR 0x0A])"
  by code_simp

text \<open>
  C1. A container image that begins with \<^verbatim>\<open>//\<close> and that no resolution rule resolves
  is to make the whole ResolveImages call fail with an error that names it. The search
  does return that error, but ResolveImages does not read it: with an empty image map the
  call returns nil and writes the document with the label \<^verbatim>\<open>//app:image\<close> in it.
\<close>

theorem unresolved_label_is_emitted:
  "findAndReplaceTag Map.empty unresolvedPod
     = Returned (Some (UnresolvedImage ''//app:image'')) unresolvedPod
   \<and> ResolveImages marshalJSON bufferWrite Map.empty [Document unresolvedPod] []
     = Returned None (renderJSON (YMap unresolvedPod) @ [CHR 0x0A])"
  by code_simp

text \<open>
  C2. An image that is an exact key of the image map is to be rewritten to the mapped
  value under every container shape. For the mapping held by a \<^verbatim>\<open>container\<close> field
  updateContainer tests the prefix \<^verbatim>\<open>//\<close> before it looks the name up: the key
  \<^verbatim>\<open>//app:image\<close> of the specification's scenario is reported as unresolved and the
  field is written out as it was.
\<close>

theorem single_container_exact_key_not_rewritten:
  "appImages ''//app:image'' = Some ''registry.example.com/app:abc123''
   \<and> findAndReplaceTag appImages containerTask
     = Returned (Some (UnresolvedSingleImage ''//app:image'')) containerTask
   \<and> ResolveImages marshalJSON bufferWrite appImages [Document containerTask] []
     = Returned None (renderJSON (YMap containerTask) @ [CHR 0x0A])"
  by code_simp

section \<open>Where the search descends\<close>

lemma map_of_update_present:
  "map_of (AList.update k v m) k' \<noteq> None \<longleftrightarrow> k' = k \<or> map_of m k' \<noteq> None"
  by (simp add: update_conv')

lemma updateContainer_keys:
  "updateContainer images obj path = Returned e obj' \<Longrightarrow> map_of obj path \<noteq> None \<Longrightarrow>
   (map_of obj' k \<noteq> None) = (map_of obj k \<noteq> None)"
  unfolding updateContainer_def
  by (auto simp: Let_def update_conv' split: option.splits yaml.splits if_splits)

lemma updateContainers_keys:
  "updateContainers images obj path = Returned e obj' \<Longrightarrow> map_of obj path \<noteq> None \<Longrightarrow>
   (map_of obj' k \<noteq> None) = (map_of obj k \<noteq> None)"
  unfolding updateContainers_def
  by (auto simp: Let_def update_conv' split: option.splits yaml.splits if_splits outcome.splits)


lemma pathsLoop_keys:
  assumes h: "\<And>obj path e obj'. handler obj path = Returned e obj' \<Longrightarrow> map_of obj path \<noteq> None
                \<Longrightarrow> (map_of obj' k \<noteq> None) = (map_of obj k \<noteq> None)"
  shows "pathsLoop handler paths found obj = Returned e (found', obj')
           \<Longrightarrow> (map_of obj' k \<noteq> None) = (map_of obj k \<noteq> None)"
proof (induction paths arbitrary: found obj)
  case Nil
  then show ?case by simp
next
  case (Cons path paths)
  show ?case
  proof (cases "map_of obj path \<noteq> None")
    case False
    with Cons show ?thesis by simp
  next
    case True
    show ?thesis
    proof (cases "handler obj path")
      case Panicked
      with True Cons.prems show ?thesis by simp
    next
      case (Returned e1 obj1)
      from h[OF Returned True] have k1: "(map_of obj1 k \<noteq> None) = (map_of obj k \<noteq> None)" .
      show ?thesis
      proof (cases e1)
        case None
        with True Returned Cons.prems
        have "pathsLoop handler paths True obj1 = Returned e (found', obj')" by simp
        from Cons.IH[OF this] k1 show ?thesis by simp
      next
        case (Some err)
        with True Returned Cons.prems k1 show ?thesis by simp
      qed
    qed
  qed
qed

lemma pathsLoop_found_last:
  assumes h: "\<And>obj path e obj'. handler obj path = Returned e obj' \<Longrightarrow> map_of obj path \<noteq> None
                \<Longrightarrow> (map_of obj' p \<noteq> None) = (map_of obj p \<noteq> None)"
  shows "pathsLoop handler (paths @ [p]) found obj = Returned None (found', obj')
           \<Longrightarrow> found' = (map_of obj p \<noteq> None)"
proof (induction paths arbitrary: found obj)
  case Nil
  then show ?case by (auto split: if_splits outcome.splits option.splits)
next
  case (Cons path paths)
  show ?case
  proof (cases "map_of obj path \<noteq> None")
    case False
    with Cons show ?thesis by simp
  next
    case True
    show ?thesis
    proof (cases "handler obj path")
      case Panicked
      with True Cons.prems show ?thesis by simp
    next
      case (Returned e1 obj1)
      from h[OF Returned True] have k1: "(map_of obj1 p \<noteq> None) = (map_of obj p \<noteq> None)" .
      show ?thesis
      proof (cases e1)
        case None
        with True Returned Cons.prems
        have "pathsLoop handler (paths @ [p]) True obj1 = Returned None (found', obj')" by simp
        from Cons.IH[OF this] k1 show ?thesis by simp
      next
        case (Some err)
        with True Returned Cons.prems show ?thesis by simp
      qed
    qed
  qed
qed

lemma updateShapes_found:
  assumes "updateShapes images obj = Returned None (found, obj')"
  shows "found = (map_of obj ''initContainers'' \<noteq> None)"
proof (cases "pathsLoop (updateContainer images) [''container'', ''spec''] False obj")
  case Panicked
  with assms show ?thesis by (simp add: updateShapes_def)
next
  case (Returned e1 r1)
  obtain f1 o1 where r1: "r1 = (f1, o1)" by (cases r1)
  show ?thesis
  proof (cases e1)
    case (Some err)
    with Returned assms show ?thesis by (simp add: updateShapes_def)
  next
    case None
    from Returned r1 None
    have first: "pathsLoop (updateContainer images) [''container'', ''spec''] False obj
                   = Returned None (f1, o1)" by simp
    have k1: "(map_of o1 ''initContainers'' \<noteq> None) = (map_of obj ''initContainers'' \<noteq> None)"
      by (rule pathsLoop_keys[OF _ first]) (rule updateContainer_keys)
    from first assms
    have "pathsLoop (updateContainers images) ([''containers''] @ [''initContainers'']) f1 o1
            = Returned None (found, obj')"
      by (simp add: updateShapes_def)
    then have "found = (map_of o1 ''initContainers'' \<noteq> None)"
      by (rule pathsLoop_found_last[rotated]) (rule updateContainers_keys)
    with k1 show ?thesis by simp
  qed
qed

lemma findAndReplaceTag_descends:
  assumes "updateShapes images obj = Returned None (found, obj')"
  shows "findAndReplaceTag images obj =
           (if map_of obj ''initContainers'' \<noteq> None then Returned None obj'
            else findContainers images obj')"
  using assms updateShapes_found[OF assms]
  by (simp add: findAndReplaceTag.simps)


text \<open>
  C3. At a node where a container shape is found the search is to stop: the other
  children of the node are not to be searched. The variable \<^verbatim>\<open>found\<close> is assigned at every
  path, so what decides is the last path alone (the lemmas above: the search descends into
  the children exactly when the node has no \<^verbatim>\<open>initContainers\<close> key). A node with a
  \<^verbatim>\<open>containers\<close> sequence has the sequence handled and its other child searched as well.
\<close>

theorem search_continues_below_handled_node:
  "findAndReplaceTag appImages siblingNode = Returned None siblingNodeResolved"
  by code_simp

section \<open>What a failing call has written\<close>

lemma decodeLoop_append:
  assumes "decodeLoop marshal writer images pre firstObj out = Returned None out1"
    and "Failure EOF \<notin> set pre"
  shows "decodeLoop marshal writer images (pre @ rest) firstObj out
           = decodeLoop marshal writer images rest (firstObj \<and> noDocument pre) out1"
  using assms
proof (induction pre arbitrary: firstObj out)
  case Nil
  then show ?case by (simp add: noDocument_def)
next
  case (Cons d pre)
  show ?case
  proof (cases d)
    case (Failure e)
    with Cons.prems have "isEmptyYamlError e" by (auto split: if_splits)
    with Failure Cons show ?thesis by (simp add: noDocument_def)
  next
    case (Document obj)
    with Cons.prems Cons.IH show ?thesis
      by (auto simp: noDocument_def split: if_splits outcome.splits option.splits prod.splits)
  qed
qed

lemma decodeLoop_rejects:
  assumes "rejection marshal images bad = Some err"
  shows "decodeLoop marshal writer images (bad # rest) firstObj out = Returned (Some err) out"
proof (cases bad)
  case (Document obj)
  with assms show ?thesis
    by (auto simp: rejection_def split: if_splits outcome.splits option.splits)
next
  case (Failure e)
  with assms show ?thesis
    by (auto simp: rejection_def split: if_splits)
qed

lemma decodeLoop_write_fails:
  assumes "serialization marshal images bad = Some buf"
    and "emit writer firstObj out buf = (Some err, out')"
  shows "decodeLoop marshal writer images (bad # rest) firstObj out = Returned (Some err) out'"
proof (cases bad)
  case (Failure e)
  with assms show ?thesis by (simp add: serialization_def)
next
  case (Document obj)
  with assms show ?thesis
    by (auto simp: serialization_def emit_def
             split: if_splits outcome.splits option.splits prod.splits)
qed

lemma decodeLoop_no_document:
  "decodeLoop marshal writer images pre firstObj out = Returned None out1 \<Longrightarrow>
   noDocument pre \<Longrightarrow> out1 = out"
proof (induction pre arbitrary: firstObj out)
  case Nil
  then show ?case by simp
next
  case (Cons d pre)
  then show ?case
    by (cases d) (auto simp: noDocument_def split: if_splits)
qed

text \<open>
  C6, as the code has it. ResolveImages writes each document as soon as it is
  serialized. Let the items before the failing one be resolved without failure. When the
  call fails on a decoder error whose text does not hold the phrase isEmptyYamlError
  looks for (an error that holds it is skipped wherever it stands in the stream), on a
  document without name or kind, or on a serializer error, it returns that error, and
  its output is what resolving the earlier items alone writes: nothing is written for
  the failing item or after it. When it fails on a write error, it returns that error
  and its output is what the writer made of the failing document's separator and bytes
  up to the write that failed. When no document comes before the failing item, the
  earlier items have written nothing.
\<close>

theorem failed_call_keeps_earlier_output:
  assumes "ResolveImages marshal writer images pre out = Returned None out1"
    and "Failure EOF \<notin> set pre"
  shows "(rejection marshal images bad = Some err
            \<longrightarrow> ResolveImages marshal writer images (pre @ bad # rest) out
                  = Returned (Some err) out1)
       \<and> (serialization marshal images bad = Some buf
            \<and> emit writer (noDocument pre) out1 buf = (Some err, out')
            \<longrightarrow> ResolveImages marshal writer images (pre @ bad # rest) out
                  = Returned (Some err) out')
       \<and> (noDocument pre \<longrightarrow> out1 = out)"
proof (intro conjI impI)
  assume "rejection marshal images bad = Some err"
  then show "ResolveImages marshal writer images (pre @ bad # rest) out = Returned (Some err) out1"
    using assms decodeLoop_append[of marshal writer images pre True out out1 "bad # rest"]
    by (simp add: ResolveImages_def decodeLoop_rejects)
next
  assume "serialization marshal images bad = Some buf
            \<and> emit writer (noDocument pre) out1 buf = (Some err, out')"
  then show "ResolveImages marshal writer images (pre @ bad # rest) out = Returned (Some err) out'"
    using assms decodeLoop_append[of marshal writer images pre True out out1 "bad # rest"]
          decodeLoop_write_fails[of marshal images bad buf writer "noDocument pre" out1 err out' rest]
    by (simp add: ResolveImages_def)
next
  assume "noDocument pre"
  with assms show "out1 = out"
    using decodeLoop_no_document[of marshal writer images pre True out out1]
    by (simp add: ResolveImages_def)
qed


theorem failed_call_keeps_earlier_output_witness:
  "ResolveImages marshalJSON bufferWrite appImages [Document unresolvedPod] []
     = Returned None resolvedPodBytes
   \<and> Failure EOF \<notin> set [Document unresolvedPod]
   \<and> rejection marshalJSON appImages (Document namelessDoc) = Some (MissingName namelessDoc)
   \<and> ResolveImages marshalJSON bufferWrite appImages
        ([Document unresolvedPod] @ Document namelessDoc # [Document unresolvedPod]) []
     = Returned (Some (MissingName namelessDoc)) resolvedPodBytes
   \<and> ResolveImages marshalJSON roomForSeparator appImages [Document unresolvedPod] []
     = Returned None resolvedPodBytes
   \<and> serialization marshalJSON appImages (Document unresolvedPod) = Some resolvedPodBytes
   \<and> emit roomForSeparator (noDocument [Document unresolvedPod]) resolvedPodBytes resolvedPodBytes
     = (Some (WriteError ''short write''), resolvedPodBytes @ separator)
   \<and> ResolveImages marshalJSON roomForSeparator appImages
        ([Document unresolvedPod] @ Document unresolvedPod # []) []
     = Returned (Some (WriteError ''short write'')) (resolvedPodBytes @ separator)
   \<and> ResolveImages marshalJSON bufferWrite appImages [Failure emptyDocumentError] []
     = Returned None []
   \<and> Failure EOF \<notin> set [Failure emptyDocumentError]
   \<and> noDocument [Failure emptyDocumentError]
   \<and> ResolveImages marshalJSON bufferWrite appImages
        ([Failure emptyDocumentError] @ Document namelessDoc # []) []
     = Returned (Some (MissingName namelessDoc)) []"
proof -
  note kept = failed_call_keeps_earlier_output
  have h1: "ResolveImages marshalJSON bufferWrite appImages [Document unresolvedPod] []
              = Returned None resolvedPodBytes"
    by code_simp
  have h2: "Failure EOF \<notin> set [Document unresolvedPod]" by simp
  have h3: "rejection marshalJSON appImages (Document namelessDoc) = Some (MissingName namelessDoc)"
    by (simp add: rejection_def namelessDoc_def GetName_def)
  have c1: "ResolveImages marshalJSON bufferWrite appImages
              ([Document unresolvedPod] @ Document namelessDoc # [Document unresolvedPod]) []
            = Returned (Some (MissingName namelessDoc)) resolvedPodBytes"
    using kept [OF h1 h2, THEN conjunct1] h3 by blast
  have w1: "ResolveImages marshalJSON roomForSeparator appImages [Document unresolvedPod] []
              = Returned None resolvedPodBytes"
    by code_simp
  have w2: "serialization marshalJSON appImages (Document unresolvedPod) = Some resolvedPodBytes"
    by code_simp
  have w3: "emit roomForSeparator (noDocument [Document unresolvedPod])
              resolvedPodBytes resolvedPodBytes
            = (Some (WriteError ''short write''), resolvedPodBytes @ separator)"
    by code_simp
  have c2: "ResolveImages marshalJSON roomForSeparator appImages
              ([Document unresolvedPod] @ Document unresolvedPod # []) []
            = Returned (Some (WriteError ''short write'')) (resolvedPodBytes @ separator)"
    using kept [OF w1 h2, THEN conjunct2, THEN conjunct1] w2 w3 by blast
  have e1: "ResolveImages marshalJSON bufferWrite appImages [Failure emptyDocumentError] []
              = Returned None []"
    by code_simp
  have e2: "Failure EOF \<notin> set [Failure emptyDocumentError]"
    by (simp add: emptyDocumentError_def)
  have e3: "noDocument [Failure emptyDocumentError]" by (simp add: noDocument_def)
  have c3: "ResolveImages marshalJSON bufferWrite appImages
              ([Failure emptyDocumentError] @ Document namelessDoc # []) []
            = Returned (Some (MissingName namelessDoc)) []"
    using kept [OF e1 e2, THEN conjunct1] h3 by blast
  from h1 h2 h3 c1 w1 w2 w3 c2 e1 e2 e3 c3 show ?thesis by blast
qed

text \<open>
  C6 as stated fails: the first call below returns the error of its second document with
  the first document in the output; the second call fails on the write of its second
  document, with the first document and the separator of the second in the output.
\<close>

theorem earlier_documents_are_written_before_failure:
  "ResolveImages marshalJSON bufferWrite appImages
     [Document unresolvedPod, Document namelessDoc] []
     = Returned (Some (MissingName namelessDoc)) resolvedPodBytes
   \<and> resolvedPodBytes \<noteq> []
   \<and> ResolveImages marshalJSON roomForSeparator appImages
        [Document unresolvedPod, Document unresolvedPod] []
     = Returned (Some (WriteError ''short write'')) (resolvedPodBytes @ separator)"
proof -
  have a: "ResolveImages marshalJSON bufferWrite appImages
             [Document unresolvedPod, Document namelessDoc] []
           = Returned (Some (MissingName namelessDoc)) resolvedPodBytes"
    by code_simp
  have b: "resolvedPodBytes \<noteq> []" by (simp add: resolvedPodBytes_def)
  have c: "ResolveImages marshalJSON roomForSeparator appImages
             [Document unresolvedPod, Document unresolvedPod] []
           = Returned (Some (WriteError ''short write'')) (resolvedPodBytes @ separator)"
    by code_simp
  from a b c show ?thesis by blast
qed

section \<open>Image references in the environment\<close>

lemma length_envLoop: "length (envLoop images env) = length env"
  by (induction env) (auto simp: Let_def split: yaml.splits option.splits)

lemma envLoop_scanned_prefix:
  "list_all envEntryScanned pre \<Longrightarrow>
   envLoop images (pre @ rest) = envLoop images pre @ envLoop images rest"
  by (induction pre)
     (auto simp: envEntryScanned_def Let_def split: yaml.splits option.splits if_splits)

lemma envLoop_stops:
  "list_all envEntryScanned pre \<Longrightarrow> \<not> envEntryScanned e \<Longrightarrow>
   envLoop images (pre @ e # post) = envLoop images pre @ e # post"
proof -
  assume pre: "list_all envEntryScanned pre" and e: "\<not> envEntryScanned e"
  from e have "envLoop images (e # post) = e # post"
    by (auto simp: envEntryScanned_def split: yaml.splits option.splits if_splits)
  with envLoop_scanned_prefix[OF pre, of images "e # post"] show ?thesis by simp
qed

lemma envLoop_rewrites_entry:
  assumes "map_of kv ''name'' = Some (YStr envName)" and "contains envName ''IMAGE_URL''"
    and "map_of kv ''value'' = Some (YStr envValue)"
    and "prefix ''//'' envValue \<or> prefix '':'' envValue"
  shows "envLoop images (YMap kv # post) =
           YMap (AList.update ''value''
                  (YStr (case images (if prefix ''//'' envValue then envValue else drop 1 envValue) of
                           Some v \<Rightarrow> v | None \<Rightarrow> [])) kv)
           # envLoop images post"
proof (cases "prefix ''//'' envValue")
  case True
  then have "\<not> prefix '':'' envValue" by (cases envValue) auto
  with True assms show ?thesis by (simp add: Let_def imagesAt_def)
next
  case False
  with assms show ?thesis by (simp add: Let_def imagesAt_def)
qed

text \<open>
  C10, as the code has it. In a container whose \<^verbatim>\<open>env\<close> is a sequence, take an entry
  that the loop reaches (every entry before it is a mapping with a string name and, when
  that name contains \<^verbatim>\<open>IMAGE_URL\<close>, a string value). When its name contains
  \<^verbatim>\<open>IMAGE_URL\<close> and its string value begins with \<^verbatim>\<open>//\<close>, or with \<^verbatim>\<open>:\<close>, which is then
  stripped, its value becomes what the image map holds at that key, and the empty string
  when the map does not hold the key. updateContainerEnv has no error to return.
\<close>

theorem env_reference_replaced_by_lookup:
  assumes "map_of container ''env'' = Some (YSeq (pre @ YMap kv # post))"
    and "list_all envEntryScanned pre"
    and "map_of kv ''name'' = Some (YStr envName)" and "contains envName ''IMAGE_URL''"
    and "map_of kv ''value'' = Some (YStr envValue)"
    and "prefix ''//'' envValue \<or> prefix '':'' envValue"
  shows "\<exists>env'. map_of (updateContainerEnv images container) ''env'' = Some (YSeq env')
           \<and> length env' = length (pre @ YMap kv # post)
           \<and> env' ! length pre =
               YMap (AList.update ''value''
                      (YStr (case images (if prefix ''//'' envValue then envValue
                                          else drop 1 envValue) of
                               Some v \<Rightarrow> v | None \<Rightarrow> [])) kv)"
proof -
  let ?kv' = "AList.update ''value''
                (YStr (case images (if prefix ''//'' envValue then envValue else drop 1 envValue) of
                         Some v \<Rightarrow> v | None \<Rightarrow> [])) kv"
  let ?env' = "envLoop images (pre @ YMap kv # post)"
  have e: "?env' = envLoop images pre @ YMap ?kv' # envLoop images post"
    using envLoop_scanned_prefix[OF assms(2)] envLoop_rewrites_entry[OF assms(3-6)] by simp
  have "map_of (updateContainerEnv images container) ''env'' = Some (YSeq ?env')"
    using assms(1) by (simp add: updateContainerEnv_def update_conv')
  moreover have "length ?env' = length (pre @ YMap kv # post)" by (rule length_envLoop)
  moreover have "?env' ! length pre = YMap ?kv'"
    using e by (simp add: nth_append length_envLoop)
  ultimately show ?thesis by blast
qed

theorem env_reference_replaced_by_lookup_witness:
  "map_of unmappedEnvContainer ''env'' = Some (YSeq ([YMap logLevelEntry] @ YMap missingUrlEntry # []))
   \<and> list_all envEntryScanned [YMap logLevelEntry]
   \<and> map_of missingUrlEntry ''name'' = Some (YStr ''APP_IMAGE_URL'')
   \<and> contains ''APP_IMAGE_URL'' ''IMAGE_URL''
   \<and> map_of missingUrlEntry ''value'' = Some (YStr ''//app:missing'')
   \<and> prefix ''//'' ''//app:missing''
   \<and> appImages ''//app:missing'' = None
   \<and> (\<exists>env'. map_of (updateContainerEnv appImages unmappedEnvContainer) ''env'' = Some (YSeq env')
          \<and> length env' = 2
          \<and> env' ! 1 = YMap [(''name'', YStr ''APP_IMAGE_URL''), (''value'', YStr [])])"
proof -
  have h1: "map_of unmappedEnvContainer ''env''
              = Some (YSeq ([YMap logLevelEntry] @ YMap missingUrlEntry # []))"
    by (simp add: unmappedEnvContainer_def)
  have h2: "list_all envEntryScanned [YMap logLevelEntry]"
    by (simp add: envEntryScanned_def logLevelEntry_def)
  have h3: "map_of missingUrlEntry ''name'' = Some (YStr ''APP_IMAGE_URL'')"
    by (simp add: missingUrlEntry_def)
  have h4: "contains ''APP_IMAGE_URL'' ''IMAGE_URL''" by simp
  have h5: "map_of missingUrlEntry ''value'' = Some (YStr ''//app:missing'')"
    by (simp add: missingUrlEntry_def)
  have h6: "prefix ''//'' ''//app:missing'' \<or> prefix '':'' ''//app:missing''" by simp
  have h7: "appImages ''//app:missing'' = None" by (simp add: appImages_def)
  from env_reference_replaced_by_lookup[OF h1 h2 h3 h4 h5 h6, of appImages]
  have "\<exists>env'. map_of (updateContainerEnv appImages unmappedEnvContainer) ''env'' = Some (YSeq env')
          \<and> length env' = 2
          \<and> env' ! 1 = YMap [(''name'', YStr ''APP_IMAGE_URL''), (''value'', YStr [])]"
    by (simp add: h7 missingUrlEntry_def numeral_2_eq_2)
  with h1 h2 h3 h4 h5 h7 show ?thesis by simp
qed

text \<open>
  C10 as stated fails for an entry that comes after one the loop returns at: here the
  first entry takes its value from a config map, and the second, whose value is a key of
  the image map, stays as it was.
\<close>

theorem env_entry_after_unscanned_entry_is_kept:
  "updateContainerEnv appImages valueFromContainer = valueFromContainer"
  by code_simp

section \<open>Ill-typed container shapes\<close>

lemma updateContainer_panics:
  "\<not> (\<exists>container. map_of obj path = Some (YMap container)) \<Longrightarrow>
   updateContainer images obj path = Panicked"
  by (auto simp: updateContainer_def split: option.splits yaml.splits)

lemma updateContainers_panics:
  "\<not> (\<exists>containers. map_of obj path = Some (YSeq containers)) \<Longrightarrow>
   updateContainers images obj path = Panicked"
  by (auto simp: updateContainers_def split: option.splits yaml.splits)

lemma containersLoop_panics:
  assumes "containersLoop images pre = Returned None pre'" and "\<not> isMapping c"
  shows "containersLoop images (pre @ c # post) = Panicked"
  using assms(1)
proof (induction pre arbitrary: pre')
  case Nil
  from assms(2) show ?case by (cases c) (simp_all add: isMapping_def)
next
  case (Cons x pre)
  then show ?case
    by (auto simp: Let_def consOutcome_def split: yaml.splits option.splits if_splits outcome.splits)
qed

lemma updateContainers_element_panics:
  assumes "map_of obj path = Some (YSeq (pre @ c # post))"
    and "containersLoop images pre = Returned None pre'" and "\<not> isMapping c"
  shows "updateContainers images obj path = Panicked"
  using assms(1) containersLoop_panics[OF assms(2,3)]
  by (simp add: updateContainers_def)

lemma updateShapes_first_panics:
  assumes "firstShape obj = Some (path, v)"
    and "path \<in> {''container'', ''spec''} \<longrightarrow> updateContainer images obj path = Panicked"
    and "path \<in> {''containers'', ''initContainers''} \<longrightarrow> updateContainers images obj path = Panicked"
  shows "updateShapes images obj = Panicked"
  using assms
  by (auto simp: firstShape_def updateShapes_def split: option.splits)

lemma findAndReplaceTag_panics:
  "updateShapes images obj = Panicked \<Longrightarrow> findAndReplaceTag images obj = Panicked"
  by (simp add: findAndReplaceTag.simps)

lemma firstShape_lookup: "firstShape obj = Some (path, v) \<Longrightarrow> map_of obj path = Some v"
  by (auto simp: firstShape_def split: option.splits)

lemma firstShape_paths:
  "firstShape obj = Some (path, v) \<Longrightarrow>
   path \<in> {''container'', ''spec'', ''containers'', ''initContainers''}"
  by (auto simp: firstShape_def split: option.splits)


lemma pathsLoop_cong_paths:
  "(\<And>node p. p \<in> set paths \<Longrightarrow> handler1 node p = handler2 node p) \<Longrightarrow>
   pathsLoop handler1 paths found obj = pathsLoop handler2 paths found obj"
  by (induction paths arbitrary: found obj) (simp_all split: outcome.splits option.splits)

lemma pathsLoop_append_cases:
  "pathsLoop handler (before @ rest) found obj =
     (case pathsLoop handler before found obj of
        Panicked \<Rightarrow> Panicked
      | Returned (Some err) r \<Rightarrow> Returned (Some err) r
      | Returned None (found1, obj1) \<Rightarrow> pathsLoop handler rest found1 obj1)"
  by (induction before arbitrary: found obj) (simp_all split: outcome.splits option.splits)

lemma pathsLoop_append:
  "pathsLoop handler before found obj = Returned None (found1, obj1) \<Longrightarrow>
   pathsLoop handler (before @ rest) found obj = pathsLoop handler rest found1 obj1"
  by (simp add: pathsLoop_append_cases)

lemma updateShapes_as_one_loop:
  "updateShapes images obj = pathsLoop (handleShape images) shapePaths False obj"
proof -
  have 1: "pathsLoop (updateContainer images) [''container'', ''spec''] False obj
             = pathsLoop (handleShape images) [''container'', ''spec''] False obj"
    by (rule pathsLoop_cong_paths) (auto simp: handleShape_def)
  have 2: "\<And>found node. pathsLoop (updateContainers images) [''containers'', ''initContainers''] found node
             = pathsLoop (handleShape images) [''containers'', ''initContainers''] found node"
    by (rule pathsLoop_cong_paths) (auto simp: handleShape_def)
  have sp: "shapePaths = [''container'', ''spec''] @ [''containers'', ''initContainers'']"
    by (simp add: shapePaths_def)
  show ?thesis
    unfolding updateShapes_def 1 2 sp pathsLoop_append_cases
    by (rule refl)
qed

lemma updateContainer_other_keys:
  "updateContainer images obj path = Returned e obj' \<Longrightarrow> k \<noteq> path \<Longrightarrow> map_of obj' k = map_of obj k"
  unfolding updateContainer_def
  by (auto simp: Let_def update_conv' split: option.splits yaml.splits if_splits)

lemma updateContainers_other_keys:
  "updateContainers images obj path = Returned e obj' \<Longrightarrow> k \<noteq> path \<Longrightarrow> map_of obj' k = map_of obj k"
  unfolding updateContainers_def
  by (auto simp: update_conv' split: option.splits yaml.splits outcome.splits)

lemma handleShape_other_keys:
  "handleShape images obj path = Returned e obj' \<Longrightarrow> k \<noteq> path \<Longrightarrow> map_of obj' k = map_of obj k"
  unfolding handleShape_def
  by (auto split: if_splits dest: updateContainer_other_keys updateContainers_other_keys)

lemma pathsLoop_other_keys:
  "pathsLoop (handleShape images) before found obj = Returned e (found1, obj1) \<Longrightarrow>
   k \<notin> set before \<Longrightarrow> map_of obj1 k = map_of obj k"
proof (induction before arbitrary: found obj)
  case Nil
  then show ?case by simp
next
  case (Cons p before)
  show ?case
  proof (cases "map_of obj p \<noteq> None")
    case False
    with Cons show ?thesis by simp
  next
    case True
    show ?thesis
    proof (cases "handleShape images obj p")
      case Panicked
      with True Cons.prems show ?thesis by simp
    next
      case (Returned e1 o1)
      from handleShape_other_keys[OF Returned] Cons.prems(2)
      have k1: "map_of o1 k = map_of obj k" by simp
      show ?thesis
      proof (cases e1)
        case None
        with True Returned Cons.prems
        have "pathsLoop (handleShape images) before True o1 = Returned e (found1, obj1)" by simp
        from Cons.IH[OF this] Cons.prems(2) k1 show ?thesis by simp
      next
        case (Some err)
        with True Returned Cons.prems k1 show ?thesis by simp
      qed
    qed
  qed
qed

lemma shapePaths_split_distinct:
  "shapePaths = before @ path # after \<Longrightarrow> path \<notin> set before"
proof -
  assume a: "shapePaths = before @ path # after"
  have "distinct shapePaths" by (simp add: shapePaths_def)
  then have "distinct (before @ path # after)" unfolding a .
  then show ?thesis by simp
qed

lemma updateShapes_panics_at:
  assumes "shapePaths = before @ path # after"
    and "pathsLoop (handleShape images) before False obj = Returned None (found, obj1)"
    and "map_of obj path = Some v"
    and "\<And>node. map_of node path = Some v \<Longrightarrow> handleShape images node path = Panicked"
  shows "updateShapes images obj = Panicked"
proof -
  have "map_of obj1 path = Some v"
    using pathsLoop_other_keys[OF assms(2) shapePaths_split_distinct[OF assms(1)]] assms(3)
    by simp
  then have "map_of obj1 path \<noteq> None" and "handleShape images obj1 path = Panicked"
    using assms(4) by simp_all
  then have "pathsLoop (handleShape images) (path # after) found obj1 = Panicked" by simp
  then show ?thesis
    using pathsLoop_append[OF assms(2), of "path # after"] assms(1)
    by (simp add: updateShapes_as_one_loop)
qed

lemma findContainers_append:
  "findContainers images earlier = Returned None earlier' \<Longrightarrow>
   findContainers images (earlier @ rest)
     = (case findContainers images rest of
          Panicked \<Rightarrow> Panicked
        | Returned e rest' \<Rightarrow> Returned e (earlier' @ rest'))"
proof (induction earlier arbitrary: earlier')
  case Nil
  then show ?case by (simp split: outcome.splits)
next
  case (Cons kv earlier)
  obtain key v where kv: "kv = (key, v)" by (cases kv)
  from Cons.prems kv show ?case
    by (cases v)
       (auto simp: consOutcome_def Cons.IH split: outcome.splits option.splits)
qed

lemma findItems_append:
  "findItems images pre = Returned None pre' \<Longrightarrow>
   findItems images (pre @ rest)
     = (case findItems images rest of
          Panicked \<Rightarrow> Panicked
        | Returned e rest' \<Rightarrow> Returned e (pre' @ rest'))"
proof (induction pre arbitrary: pre')
  case Nil
  then show ?case by (simp split: outcome.splits)
next
  case (Cons x pre)
  from Cons.prems show ?case
    by (cases x)
       (auto simp: consOutcome_def Cons.IH split: outcome.splits option.splits)
qed

lemma reachesIllTyped_panics:
  "reachesIllTyped images obj \<Longrightarrow> findAndReplaceTag images obj = Panicked"
proof (induction rule: reachesIllTyped.induct)
  case (single before path after obj found obj1 v)
  have "\<And>node. map_of node path = Some v \<Longrightarrow> handleShape images node path = Panicked"
    using single(2,5)
    by (auto simp: handleShape_def isMapping_def intro!: updateContainer_panics)
  from updateShapes_panics_at[OF single(1,3,4) this] show ?case
    by (rule findAndReplaceTag_panics)
next
  case (sequence before path after obj found obj1 v)
  have "\<And>node. map_of node path = Some v \<Longrightarrow> handleShape images node path = Panicked"
    using sequence(2,5)
    by (auto simp: handleShape_def isSequence_def intro!: updateContainers_panics)
  from updateShapes_panics_at[OF sequence(1,3,4) this] show ?case
    by (rule findAndReplaceTag_panics)
next
  case (element before path after obj found obj1 pre c post pre')
  have "\<And>node. map_of node path = Some (YSeq (pre @ c # post)) \<Longrightarrow> handleShape images node path = Panicked"
    using element(2) updateContainers_element_panics[OF _ element(5,6)]
    by (auto simp: handleShape_def)
  from updateShapes_panics_at[OF element(1,3,4) this] show ?case
    by (rule findAndReplaceTag_panics)
next
  case (child obj found obj' earlier key m later earlier')
  have "findContainers images ((key, YMap m) # later) = Panicked"
    using child.IH by simp
  then have "findContainers images obj' = Panicked"
    using findContainers_append[OF child(4), of "(key, YMap m) # later"] child(3) by simp
  with findAndReplaceTag_descends[OF child(1)] child(2) show ?case by simp
next
  case (item obj found obj' earlier key pre m post later earlier' pre')
  have "findItems images (YMap m # post) = Panicked"
    using item.IH by simp
  then have "findItems images (pre @ YMap m # post) = Panicked"
    using findItems_append[OF item(5), of "YMap m # post"] by simp
  then have "findContainers images ((key, YSeq (pre @ YMap m # post)) # later) = Panicked"
    by simp
  then have "findContainers images obj' = Panicked"
    using findContainers_append[OF item(4), of "(key, YSeq (pre @ YMap m # post)) # later"] item(3)
    by simp
  with findAndReplaceTag_descends[OF item(1)] item(2) show ?case by simp
qed


lemma containersLoop_panic_split:
  "containersLoop images cs = Panicked \<Longrightarrow>
   \<exists>pre c post pre'. cs = pre @ c # post \<and> containersLoop images pre = Returned None pre'
      \<and> \<not> isMapping c"
proof (induction cs)
  case Nil
  then show ?case by simp
next
  case (Cons x rest)
  show ?case
  proof (cases "isMapping x")
    case False
    have "x # rest = [] @ x # rest \<and> containersLoop images [] = Returned None [] \<and> \<not> isMapping x"
      using False by simp
    then show ?thesis by blast
  next
    case True
    then obtain container0 where x: "x = YMap container0"
      by (cases x) (simp_all add: isMapping_def)
    from Cons.prems x have rest: "containersLoop images rest = Panicked"
      by (auto simp: Let_def consOutcome_def
               split: option.splits yaml.splits if_splits outcome.splits)
    from Cons.IH[OF rest] obtain pre c post pre' where
      d: "rest = pre @ c # post" "containersLoop images pre = Returned None pre'" "\<not> isMapping c"
      by blast
    have "containersLoop images (x # pre @ c # post) = Panicked"
      using Cons.prems d(1) by simp
    then have "\<exists>y. containersLoop images (x # pre) = Returned None (y # pre')"
      using x d(2)
      by (auto simp: Let_def consOutcome_def
               split: option.splits yaml.splits if_splits outcome.splits)
    then obtain y where "containersLoop images (x # pre) = Returned None (y # pre')" by blast
    with d have "x # rest = (x # pre) @ c # post
                  \<and> containersLoop images (x # pre) = Returned None (y # pre') \<and> \<not> isMapping c"
      by simp
    then show ?thesis by blast
  qed
qed

lemma pathsLoop_panic_split:
  "pathsLoop handler paths found obj = Panicked \<Longrightarrow>
   \<exists>before p after found1 obj1. paths = before @ p # after
      \<and> pathsLoop handler before found obj = Returned None (found1, obj1)
      \<and> map_of obj1 p \<noteq> None \<and> handler obj1 p = Panicked"
proof (induction paths arbitrary: found obj)
  case Nil
  then show ?case by simp
next
  case (Cons p paths)
  show ?case
  proof (cases "map_of obj p \<noteq> None \<and> handler obj p = Panicked")
    case True
    then have "p # paths = [] @ p # paths
                 \<and> pathsLoop handler [] found obj = Returned None (found, obj)
                 \<and> map_of obj p \<noteq> None \<and> handler obj p = Panicked"
      by simp
    then show ?thesis by blast
  next
    case False
    then obtain found' obj' where
      step: "pathsLoop handler [p] found obj = Returned None (found', obj')"
        and rest: "pathsLoop handler paths found' obj' = Panicked"
      using Cons.prems
      by (auto split: if_splits outcome.splits option.splits)
    from Cons.IH[OF rest] obtain before q after found1 obj1 where
      d: "paths = before @ q # after"
         "pathsLoop handler before found' obj' = Returned None (found1, obj1)"
         "map_of obj1 q \<noteq> None" "handler obj1 q = Panicked"
      by blast
    have "pathsLoop handler ([p] @ before) found obj = Returned None (found1, obj1)"
      using pathsLoop_append[OF step, of before] d(2) by simp
    with d have "p # paths = (p # before) @ q # after
                  \<and> pathsLoop handler (p # before) found obj = Returned None (found1, obj1)
                  \<and> map_of obj1 q \<noteq> None \<and> handler obj1 q = Panicked"
      by simp
    then show ?thesis by blast
  qed
qed

lemma updateShapes_panic_reaches:
  assumes "updateShapes images obj = Panicked"
  shows "reachesIllTyped images obj"
proof -
  from assms have "pathsLoop (handleShape images) shapePaths False obj = Panicked"
    by (simp add: updateShapes_as_one_loop)
  from pathsLoop_panic_split[OF this] obtain before p after found1 obj1 where
    d: "shapePaths = before @ p # after"
       "pathsLoop (handleShape images) before False obj = Returned None (found1, obj1)"
       "map_of obj1 p \<noteq> None" "handleShape images obj1 p = Panicked"
    by blast
  have same: "map_of obj1 p = map_of obj p"
    using pathsLoop_other_keys[OF d(2) shapePaths_split_distinct[OF d(1)]] .
  from d(3) same obtain v where v: "map_of obj p = Some v" by auto
  have "p \<in> set (before @ p # after)" by simp
  then have "p \<in> set shapePaths" unfolding d(1)[symmetric] .
  then have p: "p = ''container'' \<or> p = ''spec'' \<or> p = ''containers'' \<or> p = ''initContainers''"
    by (simp add: shapePaths_def)
  show ?thesis
  proof (cases "p = ''container'' \<or> p = ''spec''")
    case True
    with d(4) have "updateContainer images obj1 p = Panicked" by (simp add: handleShape_def)
    with same v have "\<not> isMapping v"
      by (auto simp: updateContainer_def isMapping_def Let_def
               split: option.splits yaml.splits if_splits)
    from reachesIllTyped.single[OF d(1) True d(2) v this] show ?thesis .
  next
    case False
    with p have multi: "p = ''containers'' \<or> p = ''initContainers''" by blast
    from False d(4) have up: "updateContainers images obj1 p = Panicked"
      by (simp add: handleShape_def)
    show ?thesis
    proof (cases "isSequence v")
      case False
      from reachesIllTyped.sequence[OF d(1) multi d(2) v this] show ?thesis .
    next
      case True
      then obtain cs where cs: "v = YSeq cs" by (cases v) (simp_all add: isSequence_def)
      with up same v have "containersLoop images cs = Panicked"
        by (auto simp: updateContainers_def split: outcome.splits)
      from containersLoop_panic_split[OF this] obtain pre c post pre' where
        e: "cs = pre @ c # post" "containersLoop images pre = Returned None pre'" "\<not> isMapping c"
        by blast
      from v cs e(1) have "map_of obj p = Some (YSeq (pre @ c # post))" by simp
      from reachesIllTyped.element[OF d(1) multi d(2) this e(2,3)] show ?thesis .
    qed
  qed
qed


lemma childReaches_here:
  "(\<exists>m. v = YMap m \<and> reachesIllTyped images m) \<or> (\<exists>items. v = YSeq items \<and> itemReaches images items)
   \<Longrightarrow> childReaches images ((key, v) # rest)"
  unfolding childReaches_def
  by (rule exI[of _ "[]"], rule exI[of _ key], rule exI[of _ v], rule exI[of _ rest],
      rule exI[of _ "[]"]) simp

lemma childReaches_later:
  assumes "findContainers images [(key, v)] = Returned None [(key, v')]"
    and "childReaches images rest"
  shows "childReaches images ((key, v) # rest)"
proof -
  from assms(2) obtain earlier k w later earlier' where
    d: "rest = earlier @ (k, w) # later" "findContainers images earlier = Returned None earlier'"
       "(\<exists>m. w = YMap m \<and> reachesIllTyped images m)
          \<or> (\<exists>items. w = YSeq items \<and> itemReaches images items)"
    unfolding childReaches_def by blast
  have "findContainers images ([(key, v)] @ earlier) = Returned None ([(key, v')] @ earlier')"
    using findContainers_append[OF assms(1), of earlier] d(2) by simp
  then have "findContainers images ((key, v) # earlier) = Returned None ((key, v') # earlier')"
    by simp
  with d(1,3) show ?thesis
    unfolding childReaches_def
    by (intro exI[of _ "(key, v) # earlier"] exI[of _ k] exI[of _ w] exI[of _ later]
              exI[of _ "(key, v') # earlier'"]) simp
qed

lemma itemReaches_here:
  "reachesIllTyped images m \<Longrightarrow> itemReaches images (YMap m # rest)"
  unfolding itemReaches_def
  by (rule exI[of _ "[]"], rule exI[of _ m], rule exI[of _ rest], rule exI[of _ "[]"]) simp

lemma itemReaches_later:
  assumes "findItems images [item] = Returned None [item']"
    and "itemReaches images rest"
  shows "itemReaches images (item # rest)"
proof -
  from assms(2) obtain pre m post pre' where
    d: "rest = pre @ YMap m # post" "findItems images pre = Returned None pre'"
       "reachesIllTyped images m"
    unfolding itemReaches_def by blast
  have "findItems images ([item] @ pre) = Returned None ([item'] @ pre')"
    using findItems_append[OF assms(1), of pre] d(2) by simp
  then have "findItems images (item # pre) = Returned None (item' # pre')" by simp
  with d(1,3) show ?thesis
    unfolding itemReaches_def
    by (intro exI[of _ "item # pre"] exI[of _ m] exI[of _ post] exI[of _ "item' # pre'"]) simp
qed

lemma panic_reaches:
  "findAndReplaceTag images obj = Panicked \<longrightarrow> reachesIllTyped images obj"
  "findContainers images entries = Panicked \<longrightarrow> childReaches images entries"
  "findItems images items = Panicked \<longrightarrow> itemReaches images items"
proof (induction images obj and images entries and images items
       rule: findAndReplaceTag_findContainers_findItems.induct)
  case (1 images obj)
  show ?case
  proof
    assume p: "findAndReplaceTag images obj = Panicked"
    show "reachesIllTyped images obj"
    proof (cases "updateShapes images obj")
      case Panicked
      then show ?thesis by (rule updateShapes_panic_reaches)
    next
      case (Returned e r)
      obtain found obj' where r: "r = (found, obj')" by (cases r)
      from p Returned r have e: "e = None" and nf: "\<not> found"
        and fc: "findContainers images obj' = Panicked"
        by (auto simp: findAndReplaceTag.simps split: option.splits if_splits)
      from Returned r e have us: "updateShapes images obj = Returned None (found, obj')" by simp
      from updateShapes_found[OF us] nf have noInit: "map_of obj ''initContainers'' = None" by simp
      from "1.IH"[OF Returned e r[symmetric] nf] fc have "childReaches images obj'" by simp
      then obtain earlier key v later earlier' where
        d: "obj' = earlier @ (key, v) # later"
           "findContainers images earlier = Returned None earlier'"
           "(\<exists>m. v = YMap m \<and> reachesIllTyped images m)
              \<or> (\<exists>items. v = YSeq items \<and> itemReaches images items)"
        unfolding childReaches_def by blast
      from d(3) show ?thesis
      proof
        assume "\<exists>m. v = YMap m \<and> reachesIllTyped images m"
        then obtain m where m: "v = YMap m" "reachesIllTyped images m" by blast
        from d(1) m(1) have "obj' = earlier @ (key, YMap m) # later" by simp
        from reachesIllTyped.child[OF us noInit this d(2) m(2)] show ?thesis .
      next
        assume "\<exists>items. v = YSeq items \<and> itemReaches images items"
        then obtain pre m post pre' where
          i: "v = YSeq (pre @ YMap m # post)" "findItems images pre = Returned None pre'"
             "reachesIllTyped images m"
          unfolding itemReaches_def by blast
        from d(1) i(1) have "obj' = earlier @ (key, YSeq (pre @ YMap m # post)) # later" by simp
        from reachesIllTyped.item[OF us noInit this d(2) i(2,3)] show ?thesis .
      qed
    qed
  qed
next
  case (2 images)
  show ?case by simp
next
  case (3 images key v rest)
  show ?case
  proof
    assume p: "findContainers images ((key, v) # rest) = Panicked"
    show "childReaches images ((key, v) # rest)"
    proof (cases v)
      case (YMap m)
      show ?thesis
      proof (cases "findAndReplaceTag images m")
        case Panicked
        with "3.IH"(7)[OF YMap] have "reachesIllTyped images m" by simp
        with YMap show ?thesis by (intro childReaches_here) simp
      next
        case (Returned e m')
        with p YMap have e: "e = None" and rest: "findContainers images rest = Panicked"
          by (auto simp: consOutcome_def split: option.splits outcome.splits)
        from "3.IH"(8)[OF YMap Returned e] rest have cr: "childReaches images rest" by simp
        have "findContainers images [(key, v)] = Returned None [(key, YMap m')]"
          using YMap Returned e by (simp add: consOutcome_def)
        from childReaches_later[OF this cr] show ?thesis .
      qed
    next
      case (YSeq xs)
      show ?thesis
      proof (cases "findItems images xs")
        case Panicked
        with "3.IH"(5)[OF YSeq] have "itemReaches images xs" by simp
        with YSeq show ?thesis by (intro childReaches_here) simp
      next
        case (Returned e xs')
        with p YSeq have e: "e = None" and rest: "findContainers images rest = Panicked"
          by (auto simp: consOutcome_def split: option.splits outcome.splits)
        from "3.IH"(6)[OF YSeq Returned e] rest have cr: "childReaches images rest" by simp
        have "findContainers images [(key, v)] = Returned None [(key, YSeq xs')]"
          using YSeq Returned e by (simp add: consOutcome_def)
        from childReaches_later[OF this cr] show ?thesis .
      qed
    next
      case YNull
      with p have rest: "findContainers images rest = Panicked"
        by (auto simp: consOutcome_def split: outcome.splits)
      from "3.IH"(1)[OF YNull] rest have cr: "childReaches images rest" by simp
      have "findContainers images [(key, v)] = Returned None [(key, v)]"
        using YNull by (simp add: consOutcome_def)
      from childReaches_later[OF this cr] show ?thesis .
    next
      case (YBool b)
      with p have rest: "findContainers images rest = Panicked"
        by (auto simp: consOutcome_def split: outcome.splits)
      from "3.IH"(2)[OF YBool] rest have cr: "childReaches images rest" by simp
      have "findContainers images [(key, v)] = Returned None [(key, v)]"
        using YBool by (simp add: consOutcome_def)
      from childReaches_later[OF this cr] show ?thesis .
    next
      case (YNum n)
      with p have rest: "findContainers images rest = Panicked"
        by (auto simp: consOutcome_def split: outcome.splits)
      from "3.IH"(3)[OF YNum] rest have cr: "childReaches images rest" by simp
      have "findContainers images [(key, v)] = Returned None [(key, v)]"
        using YNum by (simp add: consOutcome_def)
      from childReaches_later[OF this cr] show ?thesis .
    next
      case (YStr str)
      with p have rest: "findContainers images rest = Panicked"
        by (auto simp: consOutcome_def split: outcome.splits)
      from "3.IH"(4)[OF YStr] rest have cr: "childReaches images rest" by simp
      have "findContainers images [(key, v)] = Returned None [(key, v)]"
        using YStr by (simp add: consOutcome_def)
      from childReaches_later[OF this cr] show ?thesis .
    qed
  qed
next
  case (4 images)
  show ?case by simp
next
  case (5 images item rest)
  show ?case
  proof
    assume p: "findItems images (item # rest) = Panicked"
    show "itemReaches images (item # rest)"
    proof (cases "\<exists>m. item = YMap m")
      case True
      then obtain m where m: "item = YMap m" by blast
      show ?thesis
      proof (cases "findAndReplaceTag images m")
        case Panicked
        with "5.IH"(6)[OF m] have "reachesIllTyped images m" by simp
        with m show ?thesis by (simp add: itemReaches_here)
      next
        case (Returned e m')
        with p m have e: "e = None" and rest: "findItems images rest = Panicked"
          by (auto simp: consOutcome_def split: option.splits outcome.splits)
        from "5.IH"(7)[OF m Returned e] rest have ir: "itemReaches images rest" by simp
        have "findItems images [item] = Returned None [YMap m']"
          using m Returned e by (simp add: consOutcome_def)
        from itemReaches_later[OF this ir] show ?thesis .
      qed
    next
      case False
      with p have rest: "findItems images rest = Panicked"
        by (cases item) (auto simp: consOutcome_def split: outcome.splits)
      from False "5.IH"(1-5) rest have ir: "itemReaches images rest"
        by (cases item) auto
      have "findItems images [item] = Returned None [item]"
        using False by (cases item) (auto simp: consOutcome_def)
      from itemReaches_later[OF this ir] show ?thesis .
    qed
  qed
qed

lemma findAndReplaceTag_panics_iff:
  "findAndReplaceTag images obj = Panicked \<longleftrightarrow> reachesIllTyped images obj"
  using panic_reaches(1) reachesIllTyped_panics by blast

lemma decodeLoop_panic_document:
  "decodeLoop marshal writer images items firstObj out = Panicked \<Longrightarrow>
   \<exists>doc. Document doc \<in> set items \<and> GetName doc \<noteq> [] \<and> GetKind doc \<noteq> []
      \<and> findAndReplaceTag images doc = Panicked"
proof (induction items arbitrary: firstObj out)
  case Nil
  then show ?case by simp
next
  case (Cons d items)
  show ?case
  proof (cases d)
    case (Failure e)
    with Cons.prems have "decodeLoop marshal writer images items firstObj out = Panicked"
      by (auto split: if_splits)
    from Cons.IH[OF this] show ?thesis by auto
  next
    case (Document obj)
    show ?thesis
    proof (cases "GetName obj \<noteq> [] \<and> GetKind obj \<noteq> []
                  \<and> findAndReplaceTag images obj = Panicked")
      case True
      with Document show ?thesis by auto
    next
      case False
      with Cons.prems Document
      have "\<exists>firstObj' out'. decodeLoop marshal writer images items firstObj' out' = Panicked"
        by (auto split: if_splits outcome.splits option.splits prod.splits)
      then obtain firstObj' out' where
        "decodeLoop marshal writer images items firstObj' out' = Panicked" by blast
      from Cons.IH[OF this] show ?thesis by auto
    qed
  qed
qed

text \<open>
  C9, as the code has it. The handlers assert the types without a check, so the
  transformer panics when it reaches an ill-typed container-shape field: updateContainer
  on a field that holds no mapping, updateContainers on a field that holds no sequence,
  and on a sequence with an element that is no mapping when the elements before it return
  no error. The search of a node panics exactly when it reaches such a field, at the node
  or below it; in particular when the ill-typed field is the first container-shape field
  the node has (in the order \<^verbatim>\<open>container\<close>, \<^verbatim>\<open>spec\<close>, \<^verbatim>\<open>containers\<close>,
  \<^verbatim>\<open>initContainers\<close>). ResolveImages panics when the search of a document with name and
  kind does and the items before the document are resolved without failure, and it does
  not panic otherwise.
\<close>

theorem ill_typed_shape_panics_when_reached:
  "(\<not> (\<exists>container. map_of obj path = Some (YMap container))
      \<longrightarrow> updateContainer images obj path = Panicked)
   \<and> (\<not> (\<exists>containers. map_of obj path = Some (YSeq containers))
      \<longrightarrow> updateContainers images obj path = Panicked)
   \<and> (map_of obj path = Some (YSeq (pre @ c # post))
        \<and> containersLoop images pre = Returned None pre' \<and> \<not> isMapping c
      \<longrightarrow> updateContainers images obj path = Panicked)
   \<and> (firstShape obj = Some (path, v) \<and> path \<in> {''container'', ''spec''} \<and> \<not> isMapping v
      \<longrightarrow> findAndReplaceTag images obj = Panicked)
   \<and> (firstShape obj = Some (path, v) \<and> path \<in> {''containers'', ''initContainers''}
        \<and> \<not> isSequence v
      \<longrightarrow> findAndReplaceTag images obj = Panicked)
   \<and> (firstShape obj = Some (path, YSeq (pre @ c # post))
        \<and> path \<in> {''containers'', ''initContainers''}
        \<and> containersLoop images pre = Returned None pre' \<and> \<not> isMapping c
      \<longrightarrow> findAndReplaceTag images obj = Panicked)
   \<and> (findAndReplaceTag images obj = Panicked \<longleftrightarrow> reachesIllTyped images obj)
   \<and> (GetName obj \<noteq> [] \<and> GetKind obj \<noteq> [] \<and> findAndReplaceTag images obj = Panicked
        \<and> ResolveImages marshal writer images items out = Returned None out1
        \<and> Failure EOF \<notin> set items
      \<longrightarrow> ResolveImages marshal writer images (items @ Document obj # rest) out = Panicked)
   \<and> (ResolveImages marshal writer images items out = Panicked
      \<longrightarrow> (\<exists>doc. Document doc \<in> set items \<and> GetName doc \<noteq> [] \<and> GetKind doc \<noteq> []
             \<and> reachesIllTyped images doc))"
proof (intro conjI impI)
  assume "\<not> (\<exists>container. map_of obj path = Some (YMap container))"
  then show "updateContainer images obj path = Panicked"
    by (rule updateContainer_panics)
next
  assume "\<not> (\<exists>containers. map_of obj path = Some (YSeq containers))"
  then show "updateContainers images obj path = Panicked"
    by (rule updateContainers_panics)
next
  assume "map_of obj path = Some (YSeq (pre @ c # post))
            \<and> containersLoop images pre = Returned None pre' \<and> \<not> isMapping c"
  then show "updateContainers images obj path = Panicked"
    by (intro updateContainers_element_panics[of obj path pre c post images pre']) auto
next
  assume a: "firstShape obj = Some (path, v) \<and> path \<in> {''container'', ''spec''} \<and> \<not> isMapping v"
  then have "updateContainer images obj path = Panicked"
    using firstShape_lookup[of obj path v]
    by (intro updateContainer_panics) (auto simp: isMapping_def)
  with a show "findAndReplaceTag images obj = Panicked"
    by (intro findAndReplaceTag_panics updateShapes_first_panics[of obj path v]) auto
next
  assume a: "firstShape obj = Some (path, v) \<and> path \<in> {''containers'', ''initContainers''}
               \<and> \<not> isSequence v"
  then have "updateContainers images obj path = Panicked"
    using firstShape_lookup[of obj path v]
    by (intro updateContainers_panics) (auto simp: isSequence_def)
  with a show "findAndReplaceTag images obj = Panicked"
    by (intro findAndReplaceTag_panics updateShapes_first_panics[of obj path v]) auto
next
  assume a: "firstShape obj = Some (path, YSeq (pre @ c # post))
               \<and> path \<in> {''containers'', ''initContainers''}
               \<and> containersLoop images pre = Returned None pre' \<and> \<not> isMapping c"
  then have "updateContainers images obj path = Panicked"
    using firstShape_lookup[of obj path "YSeq (pre @ c # post)"]
    by (intro updateContainers_element_panics[of obj path pre c post images pre']) auto
  with a show "findAndReplaceTag images obj = Panicked"
    by (intro findAndReplaceTag_panics
              updateShapes_first_panics[of obj path "YSeq (pre @ c # post)"]) auto
next
  show "findAndReplaceTag images obj = Panicked \<longleftrightarrow> reachesIllTyped images obj"
    by (rule findAndReplaceTag_panics_iff)
next
  assume a: "GetName obj \<noteq> [] \<and> GetKind obj \<noteq> [] \<and> findAndReplaceTag images obj = Panicked
        \<and> ResolveImages marshal writer images items out = Returned None out1
        \<and> Failure EOF \<notin> set items"
  then have "decodeLoop marshal writer images (items @ Document obj # rest) True out
               = decodeLoop marshal writer images (Document obj # rest) (noDocument items) out1"
    using decodeLoop_append[of marshal writer images items True out out1 "Document obj # rest"]
    by (simp add: ResolveImages_def)
  with a show "ResolveImages marshal writer images (items @ Document obj # rest) out = Panicked"
    by (simp add: ResolveImages_def)
next
  assume "ResolveImages marshal writer images items out = Panicked"
  then have "\<exists>doc. Document doc \<in> set items \<and> GetName doc \<noteq> [] \<and> GetKind doc \<noteq> []
               \<and> findAndReplaceTag images doc = Panicked"
    unfolding ResolveImages_def by (rule decodeLoop_panic_document)
  then show "\<exists>doc. Document doc \<in> set items \<and> GetName doc \<noteq> [] \<and> GetKind doc \<noteq> []
               \<and> reachesIllTyped images doc"
    by (simp add: findAndReplaceTag_panics_iff)
qed

theorem ill_typed_shape_panics_when_reached_witness:
  "\<not> (\<exists>container. map_of scalarSpecDoc ''spec'' = Some (YMap container))
   \<and> updateContainer Map.empty scalarSpecDoc ''spec'' = Panicked
   \<and> \<not> (\<exists>containers. map_of nullInitNode ''initContainers'' = Some (YSeq containers))
   \<and> updateContainers Map.empty nullInitNode ''initContainers'' = Panicked
   \<and> map_of mixedContainersNode ''containers''
       = Some (YSeq ([YMap nginxContainer] @ YStr ''sidecar'' # []))
   \<and> updateContainers Map.empty mixedContainersNode ''containers'' = Panicked
   \<and> firstShape scalarSpecDoc = Some (''spec'', YStr ''pending'')
   \<and> \<not> isMapping (YStr ''pending'')
   \<and> findAndReplaceTag Map.empty scalarSpecDoc = Panicked
   \<and> firstShape nullInitNode = Some (''initContainers'', YNull)
   \<and> \<not> isSequence YNull
   \<and> findAndReplaceTag Map.empty nullInitNode = Panicked
   \<and> firstShape mixedContainersNode
       = Some (''containers'', YSeq ([YMap nginxContainer] @ YStr ''sidecar'' # []))
   \<and> containersLoop Map.empty [YMap nginxContainer] = Returned None [YMap nginxContainer]
   \<and> \<not> isMapping (YStr ''sidecar'')
   \<and> findAndReplaceTag Map.empty mixedContainersNode = Panicked
   \<and> reachesIllTyped Map.empty laterShapeNode
   \<and> findAndReplaceTag Map.empty laterShapeNode = Panicked
   \<and> reachesIllTyped Map.empty illTypedPod
   \<and> findAndReplaceTag Map.empty illTypedPod = Panicked
   \<and> GetName illTypedPod \<noteq> [] \<and> GetKind illTypedPod \<noteq> []
   \<and> ResolveImages marshalJSON bufferWrite Map.empty [Document unresolvedPod] []
       = Returned None unresolvedPodBytes
   \<and> Failure EOF \<notin> set [Document unresolvedPod]
   \<and> ResolveImages marshalJSON bufferWrite Map.empty
        ([Document unresolvedPod] @ Document illTypedPod # []) [] = Panicked
   \<and> (\<exists>doc. Document doc \<in> set ([Document unresolvedPod] @ Document illTypedPod # [])
          \<and> GetName doc \<noteq> [] \<and> GetKind doc \<noteq> [] \<and> reachesIllTyped Map.empty doc)"
proof -
  note panics = ill_typed_shape_panics_when_reached
  have a0: "\<not> (\<exists>container. map_of scalarSpecDoc ''spec'' = Some (YMap container))"
    by (simp add: scalarSpecDoc_def)
  have a1: "firstShape scalarSpecDoc = Some (''spec'', YStr ''pending'')"
    by (simp add: firstShape_def scalarSpecDoc_def)
  have a2: "\<not> isMapping (YStr ''pending'')" by (simp add: isMapping_def)
  have b0: "\<not> (\<exists>containers. map_of nullInitNode ''initContainers'' = Some (YSeq containers))"
    by (simp add: nullInitNode_def)
  have b1: "firstShape nullInitNode = Some (''initContainers'', YNull)"
    by (simp add: firstShape_def nullInitNode_def)
  have b2: "\<not> isSequence YNull" by (simp add: isSequence_def)
  have c0: "map_of mixedContainersNode ''containers''
              = Some (YSeq ([YMap nginxContainer] @ YStr ''sidecar'' # []))"
    by (simp add: mixedContainersNode_def)
  have c1: "firstShape mixedContainersNode
              = Some (''containers'', YSeq ([YMap nginxContainer] @ YStr ''sidecar'' # []))"
    by (simp add: firstShape_def mixedContainersNode_def)
  have c2: "containersLoop Map.empty [YMap nginxContainer] = Returned None [YMap nginxContainer]"
    by (simp add: nginxContainer_def updateContainerEnv_def resolveImageName_def
                  consOutcome_def)
  have c3: "\<not> isMapping (YStr ''sidecar'')" by (simp add: isMapping_def)
  have q1: "updateContainer Map.empty scalarSpecDoc ''spec'' = Panicked"
    using panics [where obj = scalarSpecDoc and path = "''spec''" and images = Map.empty,
                  THEN conjunct1]
          a0 by blast
  have q2: "updateContainers Map.empty nullInitNode ''initContainers'' = Panicked"
    using panics [where obj = nullInitNode and path = "''initContainers''"
                    and images = Map.empty,
                  THEN conjunct2, THEN conjunct1]
          b0 by blast
  have q3: "updateContainers Map.empty mixedContainersNode ''containers'' = Panicked"
    using panics [where obj = mixedContainersNode and path = "''containers''"
                    and pre = "[YMap nginxContainer]" and c = "YStr ''sidecar''" and post = "[]"
                    and images = Map.empty and pre' = "[YMap nginxContainer]",
                  THEN conjunct2, THEN conjunct2, THEN conjunct1]
          c0 c2 c3 by blast
  have p1: "findAndReplaceTag Map.empty scalarSpecDoc = Panicked"
    using panics [where obj = scalarSpecDoc and path = "''spec''" and v = "YStr ''pending''"
                    and images = Map.empty,
                  THEN conjunct2, THEN conjunct2, THEN conjunct2, THEN conjunct1]
          a1 a2 by blast
  have p3: "findAndReplaceTag Map.empty nullInitNode = Panicked"
    using panics [where obj = nullInitNode and path = "''initContainers''" and v = YNull
                    and images = Map.empty,
                  THEN conjunct2, THEN conjunct2, THEN conjunct2, THEN conjunct2,
                  THEN conjunct1]
          b1 b2 by blast
  have p4: "findAndReplaceTag Map.empty mixedContainersNode = Panicked"
    using panics [where obj = mixedContainersNode and path = "''containers''"
                    and pre = "[YMap nginxContainer]" and c = "YStr ''sidecar''" and post = "[]"
                    and images = Map.empty and pre' = "[YMap nginxContainer]",
                  THEN conjunct2, THEN conjunct2, THEN conjunct2, THEN conjunct2,
                  THEN conjunct2, THEN conjunct1]
          c1 c2 c3 by blast
  have split: "shapePaths = [''container'', ''spec''] @ ''containers'' # [''initContainers'']"
    by (simp add: shapePaths_def)
  have notSeq: "\<not> isSequence (YStr ''oops'')" by (simp add: isSequence_def)
  have l1: "pathsLoop (handleShape Map.empty) [''container'', ''spec''] False laterShapeNode
              = Returned None (True, laterShapeNode)"
    by code_simp
  have l2: "map_of laterShapeNode ''containers'' = Some (YStr ''oops'')"
    by (simp add: laterShapeNode_def)
  have r1: "reachesIllTyped Map.empty laterShapeNode"
    by (rule reachesIllTyped.sequence[OF split _ l1 l2 notSeq]) simp
  have s1: "pathsLoop (handleShape Map.empty) [''container'', ''spec''] False oopsSpec
              = Returned None (False, oopsSpec)"
    by code_simp
  have s2: "map_of oopsSpec ''containers'' = Some (YStr ''oops'')"
    by (simp add: oopsSpec_def)
  have r2: "reachesIllTyped Map.empty oopsSpec"
    by (rule reachesIllTyped.sequence[OF split _ s1 s2 notSeq]) simp
  have d1: "updateShapes Map.empty illTypedPod = Returned None (False, illTypedPod)"
    by code_simp
  have d2: "illTypedPod
              = [(''kind'', YStr ''Pod''), (''metadata'', YMap [(''name'', YStr ''web'')])]
                @ (''spec'', YMap oopsSpec) # []"
    by (simp add: illTypedPod_def)
  have d3: "findContainers Map.empty
              [(''kind'', YStr ''Pod''), (''metadata'', YMap [(''name'', YStr ''web'')])]
            = Returned None
                [(''kind'', YStr ''Pod''), (''metadata'', YMap [(''name'', YStr ''web'')])]"
    by code_simp
  have d0: "map_of illTypedPod ''initContainers'' = None"
    by (simp add: illTypedPod_def)
  have r3: "reachesIllTyped Map.empty illTypedPod"
    by (rule reachesIllTyped.child[OF d1 d0 d2 d3 r2])
  have p5: "findAndReplaceTag Map.empty laterShapeNode = Panicked"
    using panics [where obj = laterShapeNode and images = Map.empty,
                  THEN conjunct2, THEN conjunct2, THEN conjunct2, THEN conjunct2,
                  THEN conjunct2, THEN conjunct2, THEN conjunct1]
          r1 by blast
  have p6: "findAndReplaceTag Map.empty illTypedPod = Panicked"
    using panics [where obj = illTypedPod and images = Map.empty,
                  THEN conjunct2, THEN conjunct2, THEN conjunct2, THEN conjunct2,
                  THEN conjunct2, THEN conjunct2, THEN conjunct1]
          r3 by blast
  have n1: "GetName illTypedPod \<noteq> []" by (simp add: GetName_def illTypedPod_def)
  have n2: "GetKind illTypedPod \<noteq> []" by (simp add: GetKind_def illTypedPod_def)
  have e1: "ResolveImages marshalJSON bufferWrite Map.empty [Document unresolvedPod] []
              = Returned None unresolvedPodBytes"
    by code_simp
  have e2: "Failure EOF \<notin> set [Document unresolvedPod]" by simp
  have p7: "ResolveImages marshalJSON bufferWrite Map.empty
              ([Document unresolvedPod] @ Document illTypedPod # []) [] = Panicked"
    using panics [where obj = illTypedPod and images = Map.empty and marshal = marshalJSON
                    and writer = bufferWrite and items = "[Document unresolvedPod]"
                    and out = "[]" and ?out1.0 = unresolvedPodBytes and rest = "[]",
                  THEN conjunct2, THEN conjunct2, THEN conjunct2, THEN conjunct2,
                  THEN conjunct2, THEN conjunct2, THEN conjunct2, THEN conjunct1]
          n1 n2 p6 e1 e2 by blast
  have p8: "\<exists>doc. Document doc \<in> set ([Document unresolvedPod] @ Document illTypedPod # [])
              \<and> GetName doc \<noteq> [] \<and> GetKind doc \<noteq> [] \<and> reachesIllTyped Map.empty doc"
    using panics [where images = Map.empty and marshal = marshalJSON and writer = bufferWrite
                    and items = "[Document unresolvedPod] @ Document illTypedPod # []"
                    and out = "[]",
                  THEN conjunct2, THEN conjunct2, THEN conjunct2, THEN conjunct2,
                  THEN conjunct2, THEN conjunct2, THEN conjunct2, THEN conjunct2]
          p7 by blast
  from a0 a1 a2 b0 b1 b2 c0 c1 c2 c3 q1 q2 q3 p1 p3 p4 r1 r3 p5 p6 n1 n2 e1 e2 p7 p8
  show ?thesis by blast
qed

text \<open>
  C9 as stated fails for an ill-typed field the search does not reach. In the first
  document the element before the string reports an unresolved image, and the loop
  returns before the assertion; in the second the node that holds \<^verbatim>\<open>initContainers\<close>
  is not searched further. Both calls return without a panic.
\<close>

theorem ill_typed_field_not_reached:
  "ResolveImages marshalJSON bufferWrite Map.empty [Document mixedContainersPod] []
     = Returned None (renderJSON (YMap mixedContainersPod) @ [CHR 0x0A])
   \<and> ResolveImages marshalJSON bufferWrite Map.empty [Document shieldedDoc] []
     = Returned None (renderJSON (YMap shieldedDoc) @ [CHR 0x0A])"
  by code_simp

end
